theory Spec2Isabelle
  imports Main "HOL-Library.Word"
begin

section \<open>JavaScript values used by the serial session\<close>

text \<open>
  A JavaScript string is a sequence of UTF-16 code units: \<open>.length\<close>, \<open>slice\<close>,
  \<open>substring\<close>, \<open>endsWith\<close> and the regular expressions of \<open>App.tsx\<close> all work on code
  units. A \<open>Uint8Array\<close> is a sequence of bytes.
\<close>

type_synonym byte = "8 word"
type_synonym code_unit = "16 word"
type_synonym jsstring = "code_unit list"

definition ascii :: "string \<Rightarrow> jsstring" where
  "ascii s = map of_char s"

text \<open>\<open>xs.slice(-n)\<close> for \<open>n > 0\<close>, on arrays and on strings: the last \<open>n\<close> elements, or
  all of them when there are fewer.\<close>

definition slice_last :: "nat \<Rightarrow> 'a list \<Rightarrow> 'a list" where
  "slice_last n xs = drop (length xs - n) xs"

text \<open>\<open>s.substring(i, j)\<close> for \<open>i \<le> j\<close>; both indices are clamped to the length.\<close>

definition substring :: "jsstring \<Rightarrow> nat \<Rightarrow> nat \<Rightarrow> jsstring" where
  "substring s i j = take (j - i) (drop i s)"

definition endsWith :: "jsstring \<Rightarrow> jsstring \<Rightarrow> bool" where
  "endsWith s suffix = (length suffix \<le> length s \<and> drop (length s - length suffix) s = suffix)"

text \<open>\<open>s.padStart(n, c)\<close> with a one-unit pad string.\<close>

definition padStart :: "nat \<Rightarrow> code_unit \<Rightarrow> jsstring \<Rightarrow> jsstring" where
  "padStart n c s = replicate (n - length s) c @ s"

text \<open>\<open>toUpperCase\<close> on the ASCII letters; the session applies it to hexadecimal digits
  and to the ASCII names \<open>rx\<close>, \<open>tx\<close>, \<open>info\<close>, \<open>error\<close>, \<open>dtr\<close>, \<open>rts\<close> only.\<close>

definition upperUnit :: "code_unit \<Rightarrow> code_unit" where
  "upperUnit c = (if 0x61 \<le> c \<and> c \<le> 0x7A then c - 0x20 else c)"

definition toUpperCase :: "jsstring \<Rightarrow> jsstring" where
  "toUpperCase s = map upperUnit s"

fun join :: "jsstring \<Rightarrow> jsstring list \<Rightarrow> jsstring" where
  "join sep [] = []"
| "join sep [x] = x"
| "join sep (x # y # ys) = x @ sep @ join sep (y # ys)"

text \<open>\<open>n.toString(16)\<close> and \<open>n.toString(10)\<close> of a non-negative integer: lower-case digits,
  no leading zero.\<close>

definition digitUnit :: "nat \<Rightarrow> code_unit" where
  "digitUnit d = (if d < 10 then 0x30 + of_nat d else 0x61 + of_nat (d - 10))"

fun toStringRadix :: "nat \<Rightarrow> nat \<Rightarrow> jsstring" where
  "toStringRadix r n =
     (if r < 2 \<or> n < r then [digitUnit n]
      else toStringRadix r (n div r) @ [digitUnit (n mod r)])"

declare toStringRadix.simps [simp del]

text \<open>The character class \<open>[0-9A-Fa-f]\<close>.\<close>

definition isHexDigit :: "code_unit \<Rightarrow> bool" where
  "isHexDigit c =
     ((0x30 \<le> c \<and> c \<le> 0x39) \<or> (0x41 \<le> c \<and> c \<le> 0x46) \<or> (0x61 \<le> c \<and> c \<le> 0x66))"

definition hexDigitValue :: "code_unit \<Rightarrow> nat" where
  "hexDigitValue c =
     (if 0x30 \<le> c \<and> c \<le> 0x39 then unat c - 0x30
      else if 0x41 \<le> c \<and> c \<le> 0x46 then unat c - 0x41 + 10
      else unat c - 0x61 + 10)"

text \<open>\<open>parseInt(s, 16)\<close> on the strings \<open>parseHexString\<close> passes: the hexadecimal digits at
  the start of \<open>s\<close> are read, most significant first. (With no digit JavaScript gives
  \<open>NaN\<close>, which a \<open>Uint8Array\<close> stores as 0, the value of the empty fold.)\<close>

definition parseInt16 :: "jsstring \<Rightarrow> nat" where
  "parseInt16 s = foldl (\<lambda>acc c. acc * 16 + hexDigitValue c) 0 (takeWhile isHexDigit s)"

subsection \<open>\<open>TextEncoder.encode\<close>: UTF-16 code units to UTF-8 bytes\<close>

definition isHighSurrogate :: "code_unit \<Rightarrow> bool" where
  "isHighSurrogate c = (0xD800 \<le> c \<and> c \<le> 0xDBFF)"

definition isLowSurrogate :: "code_unit \<Rightarrow> bool" where
  "isLowSurrogate c = (0xDC00 \<le> c \<and> c \<le> 0xDFFF)"

definition scalarOfUnit :: "code_unit \<Rightarrow> nat" where
  "scalarOfUnit c = (if isHighSurrogate c \<or> isLowSurrogate c then 0xFFFD else unat c)"

fun codePoints :: "jsstring \<Rightarrow> nat list" where
  "codePoints [] = []"
| "codePoints [c] = [scalarOfUnit c]"
| "codePoints (c # d # rest) =
     (if isHighSurrogate c \<and> isLowSurrogate d
      then (0x10000 + (unat c - 0xD800) * 0x400 + (unat d - 0xDC00)) # codePoints rest
      else scalarOfUnit c # codePoints (d # rest))"

definition utf8 :: "nat \<Rightarrow> byte list" where
  "utf8 cp =
     (if cp < 0x80 then [of_nat cp]
      else if cp < 0x800 then [of_nat (0xC0 + cp div 0x40), of_nat (0x80 + cp mod 0x40)]
      else if cp < 0x10000 then
        [of_nat (0xE0 + cp div 0x1000), of_nat (0x80 + cp div 0x40 mod 0x40),
         of_nat (0x80 + cp mod 0x40)]
      else
        [of_nat (0xF0 + cp div 0x40000), of_nat (0x80 + cp div 0x1000 mod 0x40),
         of_nat (0x80 + cp div 0x40 mod 0x40), of_nat (0x80 + cp mod 0x40)])"

definition textEncode :: "jsstring \<Rightarrow> byte list" where
  "textEncode s = concat (map utf8 (codePoints s))"

section \<open>Codec (\<open>App.tsx\<close>, lines 21 to 37)\<close>

text \<open>
  \<^verbatim>\<open>
  const parseHexString = (str: string): Uint8Array | null => {
    const clean = str.replace(/[^0-9A-Fa-f]/g, '');
    if (clean.length === 0 || clean.length % 2 !== 0) return null;
    const bytes = new Uint8Array(clean.length / 2);
    for (let i = 0; i < clean.length; i += 2) {
      bytes[i / 2] = parseInt(clean.substring(i, i + 2), 16);
    }
    return bytes;
  };
  \<close>
  The loop is the recursive function \<open>parseHexLoop\<close> on the index \<open>i\<close>; a store into a
  \<open>Uint8Array\<close> keeps the value modulo 256 and is ignored out of range, as \<open>list_update\<close> is.
\<close>

definition stripNonHex :: "jsstring \<Rightarrow> jsstring" where
  "stripNonHex str = filter isHexDigit str"

function parseHexLoop :: "jsstring \<Rightarrow> nat \<Rightarrow> byte list \<Rightarrow> byte list" where
  "parseHexLoop clean i bytes =
     (if i < length clean
      then parseHexLoop clean (i + 2)
             (bytes[i div 2 := of_nat (parseInt16 (substring clean i (i + 2)))])
      else bytes)"
  by pat_completeness auto
termination
  by (relation "measure (\<lambda>(clean, i, bytes). length clean - i)") auto

declare parseHexLoop.simps [simp del]

definition parseHexString :: "jsstring \<Rightarrow> byte list option" where
  "parseHexString str =
     (let clean = stripNonHex str in
      if length clean = 0 \<or> length clean mod 2 \<noteq> 0 then None
      else Some (parseHexLoop clean 0 (replicate (length clean div 2) 0)))"

text \<open>
  \<^verbatim>\<open>
  const bufferToHex = (buffer: Uint8Array): string => {
    return Array.from(buffer)
      .map(b => b.toString(16).padStart(2, '0').toUpperCase())
      .join(' ');
  };
  \<close>
\<close>

definition byteToHex :: "byte \<Rightarrow> jsstring" where
  "byteToHex b = toUpperCase (padStart 2 0x30 (toStringRadix 16 (unat b)))"

definition bufferToHex :: "byte list \<Rightarrow> jsstring" where
  "bufferToHex buffer = join [0x20] (map byteToHex buffer)"

section \<open>Session state (\<open>types.ts\<close>)\<close>

datatype LogType = Rx | Tx | Info | Error

record LogEntry =
  id_entry :: jsstring
  timestamp :: nat
  type_entry :: LogType
  data :: jsstring
  hex :: jsstring

datatype Parity = ParityNone | ParityEven | ParityOdd
datatype StopBits = StopOne | StopTwo
datatype DataBits = DataSeven | DataEight
datatype FlowControl = FlowNone | FlowHardware

record SerialConfig =
  baudRate :: nat
  dataBits :: DataBits
  stopBits :: StopBits
  parity :: Parity
  bufferSize :: nat
  flowControl :: FlowControl

record SendConfig =
  isHex :: bool
  addCRLF :: bool
  autoRepeat :: bool
  repeatInterval :: nat

text \<open>
  The \<open>SerialPort\<close> object of the Web Serial API, as far as the session uses it: whether
  its \<open>writable\<close> stream is there (it is \<open>null\<close> on a closed port), whether a writer holds
  the stream's lock, the chunks written to the stream so far, and the two control lines.
\<close>

record SerialPort =
  port_writable :: bool
  port_locked :: bool
  port_written :: "byte list list"
  port_dtr :: bool
  port_rts :: bool

datatype AIProvider = Gemini | Deepseek | Openai | Grok | Custom

record AIConfig =
  provider :: AIProvider
  apiKey :: jsstring
  baseUrl :: jsstring
  model :: jsstring

record SerialState =
  isConnected :: bool
  port :: "SerialPort option"
  config :: SerialConfig
  sendConfig :: SendConfig
  logs :: "LogEntry list"
  isHexMode :: bool
  autoScroll :: bool
  showTimestamp :: bool
  dtr :: bool
  rts :: bool
  rxCount :: nat
  txCount :: nat
  aiConfig :: AIConfig
  showAiSettings :: bool

text \<open>The initial state of \<open>App\<close> with nothing saved in local storage.\<close>

definition initialState :: SerialState where
  "initialState =
     \<lparr>isConnected = False, port = None,
      config = \<lparr>baudRate = 115200, dataBits = DataEight, stopBits = StopOne,
                parity = ParityNone, bufferSize = 1024, flowControl = FlowNone\<rparr>,
      sendConfig = \<lparr>isHex = False, addCRLF = False, autoRepeat = False, repeatInterval = 1000\<rparr>,
      logs = [], isHexMode = False, autoScroll = True, showTimestamp = True,
      dtr = False, rts = False, rxCount = 0, txCount = 0,
      aiConfig = \<lparr>provider = Gemini, apiKey = [], baseUrl = [],
                  model = ascii ''gemini-2.0-flash''\<rparr>,
      showAiSettings = False\<rparr>"

section \<open>Transcript log: \<open>addLog\<close> (\<open>App.tsx\<close>, lines 120 to 144)\<close>

text \<open>
  \<^verbatim>\<open>
  const addLog = useCallback((type, data: string, rawBytes?: Uint8Array) => {
    let hex = '';
    if (rawBytes) { hex = bufferToHex(rawBytes); }
    else { hex = Array.from(new TextEncoder().encode(data))
             .map(b => b.toString(16).padStart(2, '0').toUpperCase()).join(' '); }
    const newEntry: LogEntry = {
      id: Math.random().toString(36).substring(2, 9), timestamp: new Date(), type, data, hex };
    setState(prev => ({
      ...prev,
      logs: [...prev.logs.slice(-2000), newEntry], // Keep last 2000 entries
      rxCount: type === 'rx' ? prev.rxCount + (rawBytes ? rawBytes.length : data.length) : prev.rxCount,
      txCount: type === 'tx' ? prev.txCount + (rawBytes ? rawBytes.length : data.length) : prev.txCount
    }));
  }, []);
  \<close>
  The random identifier and the clock are inputs of the model (a \<open>stamp\<close>). An optional
  argument is an \<open>option\<close>; every \<open>Uint8Array\<close>, the empty one too, is truthy.
\<close>

record stamp =
  newId :: jsstring
  now :: nat

definition countedLength :: "jsstring \<Rightarrow> byte list option \<Rightarrow> nat" where
  "countedLength d rawBytes = (case rawBytes of Some b \<Rightarrow> length b | None \<Rightarrow> length d)"

definition newEntry :: "stamp \<Rightarrow> LogType \<Rightarrow> jsstring \<Rightarrow> byte list option \<Rightarrow> LogEntry" where
  "newEntry st ty d rawBytes =
     (let hx = (case rawBytes of
                  Some b \<Rightarrow> bufferToHex b
                | None \<Rightarrow> join [0x20] (map byteToHex (textEncode d)))
      in \<lparr>id_entry = newId st, timestamp = now st, type_entry = ty, data = d, hex = hx\<rparr>)"

definition addLog :: "stamp \<Rightarrow> LogType \<Rightarrow> jsstring \<Rightarrow> byte list option \<Rightarrow> SerialState \<Rightarrow> SerialState" where
  "addLog st ty d rawBytes prev =
     (prev\<lparr>logs := slice_last 2000 (logs prev) @ [newEntry st ty d rawBytes],
               rxCount := (if ty = Rx then rxCount prev + countedLength d rawBytes else rxCount prev),
               txCount := (if ty = Tx then txCount prev + countedLength d rawBytes else txCount prev)\<rparr>)"

text \<open>A sequence of appends: one request per call of \<open>addLog\<close>, in order.\<close>

record appendRequest =
  req_stamp :: stamp
  req_type :: LogType
  req_data :: jsstring
  req_rawBytes :: "byte list option"

definition addLogReq :: "SerialState \<Rightarrow> appendRequest \<Rightarrow> SerialState" where
  "addLogReq s r = addLog (req_stamp r) (req_type r) (req_data r) (req_rawBytes r) s"

definition addLogs :: "appendRequest list \<Rightarrow> SerialState \<Rightarrow> SerialState" where
  "addLogs rs s = foldl addLogReq s rs"

text \<open>The entry a request appends, and the length of the raw bytes it carries.\<close>

definition requestEntry :: "appendRequest \<Rightarrow> LogEntry" where
  "requestEntry r = newEntry (req_stamp r) (req_type r) (req_data r) (req_rawBytes r)"

definition rawLength :: "appendRequest \<Rightarrow> nat" where
  "rawLength r = (case req_rawBytes r of Some b \<Rightarrow> length b | None \<Rightarrow> 0)"


section \<open>Messages of the transcript (\<open>App.tsx\<close>), as UTF-16 code units\<close>

definition msgNotConnected :: jsstring where
  "msgNotConnected =
     [0x4E32, 0x53E3, 0x672A, 0x8FDE, 0x63A5]"

definition msgHexFormat :: jsstring where
  "msgHexFormat =
     [0x0048, 0x0065, 0x0078, 0x0020, 0x683C, 0x5F0F, 0x9519, 0x8BEF, 0x0020, 0x0028, 0x5E94,
      0x4E3A, 0x5076, 0x6570, 0x4F4D, 0x0020, 0x0030, 0x002D, 0x0039, 0x0020, 0x0041, 0x002D,
      0x0046, 0x0029]"

definition msgSendError :: jsstring where
  "msgSendError =
     [0x53D1, 0x9001, 0x9519, 0x8BEF, 0x003A, 0x0020]"

definition msgClosed :: jsstring where
  "msgClosed =
     [0x4E32, 0x53E3, 0x5DF2, 0x5173, 0x95ED]"

definition msgSignalSet :: jsstring where
  "msgSignalSet =
     [0x4FE1, 0x53F7, 0x8BBE, 0x7F6E, 0x003A, 0x0020]"

definition msgSignalError :: jsstring where
  "msgSignalError =
     [0x65E0, 0x6CD5, 0x8BBE, 0x7F6E, 0x4FE1, 0x53F7, 0x003A, 0x0020]"

definition msgUnsupported :: jsstring where
  "msgUnsupported =
     [0x5F53, 0x524D, 0x6D4F, 0x89C8, 0x5668, 0x4E0D, 0x652F, 0x6301, 0x0020, 0x0057, 0x0065,
      0x0062, 0x0020, 0x0053, 0x0065, 0x0072, 0x0069, 0x0061, 0x006C, 0x0020, 0x0041, 0x0050,
      0x0049, 0xFF0C, 0x8BF7, 0x4F7F, 0x7528, 0x0020, 0x0043, 0x0068, 0x0072, 0x006F, 0x006D,
      0x0065, 0x0020, 0x6216, 0x0020, 0x0045, 0x0064, 0x0067, 0x0065, 0x3002]"

definition msgOpened :: jsstring where
  "msgOpened =
     [0x4E32, 0x53E3, 0x5DF2, 0x6253, 0x5F00, 0x003A, 0x0020]"

definition msgOpenFailed :: jsstring where
  "msgOpenFailed =
     [0x6253, 0x5F00, 0x5931, 0x8D25, 0x003A, 0x0020]"


definition CRLF :: jsstring where
  "CRLF = [0x0D, 0x0A]"

section \<open>Write path: \<open>sendData\<close> (\<open>App.tsx\<close>, lines 256 to 303)\<close>

text \<open>
  An awaited call of the platform either resolves or rejects with an \<open>Error\<close>, whose
  \<open>message\<close> the session logs.
\<close>

datatype outcome = Resolves | Rejects jsstring

datatype payload = TextPayload jsstring | BytesPayload "byte list"

text \<open>
  What the environment decides during one call of \<open>sendData\<close>: the stamp of the entry
  it logs, the message of the \<open>TypeError\<close> that \<open>getWriter()\<close> throws on a locked stream,
  and whether \<open>write\<close> resolves.
\<close>

record sendEnv =
  send_stamp :: stamp
  getWriterError :: jsstring
  writeOutcome :: outcome

text \<open>
  \<^verbatim>\<open>
      await writerRef.current.write(dataToSend);
      addLog('tx', displayLog, dataToSend);
    } catch (err) {
      addLog('error', `... ${(err as Error).message}`);
    } finally {
      if (writerRef.current) { writerRef.current.releaseLock(); }
    }
  \<close>
  A chunk whose write resolves is recorded in \<open>port_written\<close>; the writer's lock is
  taken and released within the call.
\<close>

definition transmit :: "sendEnv \<Rightarrow> byte list \<Rightarrow> jsstring \<Rightarrow> SerialState \<Rightarrow> SerialState" where
  "transmit env dataToSend displayLog s =
     (case writeOutcome env of
        Resolves \<Rightarrow>
          addLog (send_stamp env) Tx displayLog (Some dataToSend)
            (s\<lparr>port := map_option (\<lambda>p. p\<lparr>port_written := port_written p @ [dataToSend]\<rparr>) (port s)\<rparr>)
      | Rejects m \<Rightarrow> addLog (send_stamp env) Error (msgSendError @ m) None s)"

text \<open>
  \<^verbatim>\<open>
  const sendData = async (content: string | Uint8Array,
                          isHexInput: boolean = state.sendConfig.isHex) => {
    if (!state.port || !state.port.writable) { addLog('error', '...'); return; }
    try {
      writerRef.current = state.port.writable.getWriter();
      let dataToSend: Uint8Array; let displayLog: string;
      if (content instanceof Uint8Array) {
        dataToSend = content; displayLog = `[FILE] Sent ${content.length} bytes`;
      } else {
        if (isHexInput) {
          const bytes = parseHexString(content);
          if (!bytes) { addLog('error', 'Hex ...'); writerRef.current.releaseLock(); return; }
          dataToSend = bytes; displayLog = `[HEX] ${bufferToHex(bytes)}`;
        } else {
          let textToSend = content;
          if (state.sendConfig.addCRLF && !textToSend.endsWith('\r\n')) { textToSend += '\r\n'; }
          const encoder = new TextEncoder();
          dataToSend = encoder.encode(textToSend); displayLog = textToSend;
        }
      }
      ...
  \<close>
  The call is modelled as one step, from the state the render closed over. When the
  stream is locked (a send of this session is still waiting for its write),
  \<open>getWriter()\<close> throws; the \<open>finally\<close> block then releases the writer that
  \<open>writerRef\<close> still holds, which is the one holding the lock.
\<close>

definition sendData :: "sendEnv \<Rightarrow> payload \<Rightarrow> bool option \<Rightarrow> SerialState \<Rightarrow> SerialState" where
  "sendData env content isHexArg s =
     (let isHexInput = (case isHexArg of Some b \<Rightarrow> b | None \<Rightarrow> isHex (sendConfig s)) in
      case port s of
        None \<Rightarrow> addLog (send_stamp env) Error msgNotConnected None s
      | Some p \<Rightarrow>
          if \<not> port_writable p then addLog (send_stamp env) Error msgNotConnected None s
          else if port_locked p then
            addLog (send_stamp env) Error (msgSendError @ getWriterError env) None
              (s\<lparr>port := Some (p\<lparr>port_locked := False\<rparr>)\<rparr>)
          else
            (case content of
               BytesPayload b \<Rightarrow>
                 transmit env b
                   (ascii ''[FILE] Sent '' @ toStringRadix 10 (length b) @ ascii '' bytes'') s
             | TextPayload t \<Rightarrow>
                 if isHexInput then
                   (case parseHexString t of
                      None \<Rightarrow> addLog (send_stamp env) Error msgHexFormat None s
                    | Some bytes \<Rightarrow> transmit env bytes (ascii ''[HEX] '' @ bufferToHex bytes) s)
                 else
                   (let textToSend =
                          (if addCRLF (sendConfig s) \<and> \<not> endsWith t CRLF then t @ CRLF else t)
                    in transmit env (textEncode textToSend) textToSend s)))"

text \<open>The chunks written to the channel of the session so far.\<close>

definition writtenChunks :: "SerialState \<Rightarrow> byte list list" where
  "writtenChunks s = (case port s of None \<Rightarrow> [] | Some p \<Rightarrow> port_written p)"

section \<open>Connection lifecycle\<close>

text \<open>
  \<open>handleConnect\<close> (\<open>App.tsx\<close>, lines 173 to 201). The environment decides whether the
  browser has the Web Serial API, whether \<open>requestPort\<close> and \<open>open\<close> resolve, and whether
  the first \<open>setSignals\<close> does; the read loop starts only after that.
\<close>

datatype connectOutcome =
    Unsupported
  | OpenRejected jsstring
  | Opened SerialPort outcome

record connectEnv =
  connect_stamp :: stamp
  connect_stamp2 :: stamp
  connectOutcome :: connectOutcome

definition handleConnect :: "connectEnv \<Rightarrow> SerialState \<Rightarrow> SerialState" where
  "handleConnect env s =
     (case connectOutcome env of
        Unsupported \<Rightarrow> addLog (connect_stamp env) Error msgUnsupported None s
      | OpenRejected m \<Rightarrow> addLog (connect_stamp env) Error (msgOpenFailed @ m) None s
      | Opened p signals \<Rightarrow>
          (let s1 = addLog (connect_stamp env) Info
                      (msgOpened @ toStringRadix 10 (baudRate (config s)) @ ascii '' bps'') None
                      (s\<lparr>isConnected := True, port := Some p\<rparr>)
           in case signals of
                Resolves \<Rightarrow> s1\<lparr>port := Some (p\<lparr>port_dtr := False, port_rts := False\<rparr>)\<rparr>
              | Rejects m \<Rightarrow> addLog (connect_stamp2 env) Error (msgOpenFailed @ m) None s1))"

text \<open>
  \<open>handleSignalChange\<close> (\<open>App.tsx\<close>, lines 322 to 334):
  \<^verbatim>\<open>
  const handleSignalChange = async (signal: 'dtr' | 'rts', value: boolean) => {
    if (!state.port || !state.isConnected) return;
    try {
      await state.port.setSignals({
        dataTerminalReady: signal === 'dtr' ? value : state.dtr,
        requestToSend: signal === 'rts' ? value : state.rts });
      setState(prev => ({ ...prev, [signal]: value }));
      addLog('info', `...: ${signal.toUpperCase()} = ${value ? 'ON' : 'OFF'}`);
    } catch (e) { addLog('error', `...: ${(e as Error).message}`); }
  };
  \<close>
\<close>

datatype signal = Dtr | Rts

record signalEnv =
  signal_stamp :: stamp
  setSignalsOutcome :: outcome

definition signalName :: "signal \<Rightarrow> jsstring" where
  "signalName sg = (case sg of Dtr \<Rightarrow> ascii ''dtr'' | Rts \<Rightarrow> ascii ''rts'')"

definition handleSignalChange :: "signalEnv \<Rightarrow> signal \<Rightarrow> bool \<Rightarrow> SerialState \<Rightarrow> SerialState" where
  "handleSignalChange env sg v s =
     (case port s of
        None \<Rightarrow> s
      | Some p \<Rightarrow>
          if \<not> isConnected s then s
          else
            (case setSignalsOutcome env of
               Resolves \<Rightarrow>
                 addLog (signal_stamp env) Info
                   (msgSignalSet @ toUpperCase (signalName sg) @ ascii '' = ''
                      @ (if v then ascii ''ON'' else ascii ''OFF'')) None
                   ((case sg of Dtr \<Rightarrow> s\<lparr>dtr := v\<rparr> | Rts \<Rightarrow> s\<lparr>rts := v\<rparr>)
                      \<lparr>port := Some (p\<lparr>port_dtr := (if sg = Dtr then v else dtr s),
                                        port_rts := (if sg = Rts then v else rts s)\<rparr>)\<rparr>)
             | Rejects m \<Rightarrow> addLog (signal_stamp env) Error (msgSignalError @ m) None s))"


section \<open>Auto-repeat timer and disconnect\<close>

text \<open>
  Besides the React state the component holds refs (\<open>keepReadingRef\<close>,
  \<open>autoSendTimerRef\<close>), the input buffer, and, in the browser window, the intervals
  started by \<open>window.setInterval\<close>. An interval is its handle, its delay and the input
  buffer its callback \<open>() => sendData(inputBuffer)\<close> closed over. The window hands out
  positive handles and never the same one twice.
\<close>

record Interval =
  interval_id :: nat
  interval_delay :: nat
  interval_payload :: jsstring

text \<open>The dependency array of the auto-send effect (\<open>App.tsx\<close>, line 352).\<close>

record autoSendDeps =
  dep_autoRepeat :: bool
  dep_repeatInterval :: nat
  dep_isConnected :: bool
  dep_inputBuffer :: jsstring
  dep_isHex :: bool
  dep_addCRLF :: bool

record Session =
  state :: SerialState
  inputBuffer :: jsstring
  keepReadingRef :: bool
  autoSendTimerRef :: "nat option"
  intervals :: "Interval list"
  lastTimerId :: nat
  effectDeps :: "autoSendDeps option"

definition clearInterval :: "nat \<Rightarrow> Session \<Rightarrow> Session" where
  "clearInterval h ss = ss\<lparr>intervals := filter (\<lambda>i. interval_id i \<noteq> h) (intervals ss)\<rparr>"

text \<open>A ref holding \<open>null\<close> or the number 0 is falsy.\<close>

definition truthyHandle :: "nat option \<Rightarrow> bool" where
  "truthyHandle r = (case r of None \<Rightarrow> False | Some h \<Rightarrow> h \<noteq> 0)"

text \<open>
  \<open>handleDisconnect\<close> (\<open>App.tsx\<close>, lines 203 to 228):
  \<^verbatim>\<open>
    keepReadingRef.current = false;
    if (autoSendTimerRef.current) {
      window.clearInterval(autoSendTimerRef.current);
      autoSendTimerRef.current = null;
      setState(prev => ({ ...prev, sendConfig: { ...prev.sendConfig, autoRepeat: false } }));
    }
    if (readerRef.current) { try { await readerRef.current.cancel(); } catch (e) { } }
    if (state.port) { try { await state.port.close(); } catch (e) { console.error(...); } }
    setState(prev => ({ ...prev, isConnected: false, port: null }));
    addLog('info', '...');
  \<close>
  Whether \<open>cancel\<close> and \<open>close\<close> resolve changes nothing in the session.
\<close>

definition handleDisconnect :: "stamp \<Rightarrow> Session \<Rightarrow> Session" where
  "handleDisconnect st ss =
     (let ss1 = ss\<lparr>keepReadingRef := False\<rparr>;
          ss2 = (case autoSendTimerRef ss1 of
                   None \<Rightarrow> ss1
                 | Some h \<Rightarrow>
                     if h \<noteq> 0 then
                       (clearInterval h ss1)
                         \<lparr>autoSendTimerRef := None,
                          state := (state ss1)\<lparr>sendConfig := (sendConfig (state ss1))\<lparr>autoRepeat := False\<rparr>\<rparr>\<rparr>
                     else ss1)
      in ss2\<lparr>state := addLog st Info msgClosed None ((state ss2)\<lparr>isConnected := False, port := None\<rparr>)\<rparr>)"

text \<open>
  The auto-send effect (\<open>App.tsx\<close>, lines 336 to 352):
  \<^verbatim>\<open>
  useEffect(() => {
    if (state.sendConfig.autoRepeat && state.isConnected && inputBuffer) {
      if (!autoSendTimerRef.current) {
        autoSendTimerRef.current = window.setInterval(() => { sendData(inputBuffer); },
                                     Math.max(10, state.sendConfig.repeatInterval));
      }
    } else {
      if (autoSendTimerRef.current) {
        window.clearInterval(autoSendTimerRef.current);
        autoSendTimerRef.current = null;
      }
    }
    return () => { if (autoSendTimerRef.current) window.clearInterval(autoSendTimerRef.current); };
  }, [autoRepeat, repeatInterval, isConnected, inputBuffer, isHex, addCRLF]);
  \<close>
\<close>

definition autoSendEffect :: "Session \<Rightarrow> Session" where
  "autoSendEffect ss =
     (if autoRepeat (sendConfig (state ss)) \<and> isConnected (state ss) \<and> inputBuffer ss \<noteq> [] then
        (if \<not> truthyHandle (autoSendTimerRef ss) then
           (let h = Suc (lastTimerId ss) in
            ss\<lparr>intervals := intervals ss @
                    [\<lparr>interval_id = h,
                      interval_delay = max 10 (repeatInterval (sendConfig (state ss))),
                      interval_payload = inputBuffer ss\<rparr>],
                lastTimerId := h,
                autoSendTimerRef := Some h\<rparr>)
         else ss)
      else
        (case autoSendTimerRef ss of
           None \<Rightarrow> ss
         | Some h \<Rightarrow> if h \<noteq> 0 then (clearInterval h ss)\<lparr>autoSendTimerRef := None\<rparr> else ss))"

definition autoSendCleanup :: "Session \<Rightarrow> Session" where
  "autoSendCleanup ss =
     (case autoSendTimerRef ss of
        None \<Rightarrow> ss
      | Some h \<Rightarrow> if h \<noteq> 0 then clearInterval h ss else ss)"

definition currentDeps :: "Session \<Rightarrow> autoSendDeps" where
  "currentDeps ss =
     \<lparr>dep_autoRepeat = autoRepeat (sendConfig (state ss)),
      dep_repeatInterval = repeatInterval (sendConfig (state ss)),
      dep_isConnected = isConnected (state ss),
      dep_inputBuffer = inputBuffer ss,
      dep_isHex = isHex (sendConfig (state ss)),
      dep_addCRLF = addCRLF (sendConfig (state ss))\<rparr>"

text \<open>
  After a render React runs the effect when a dependency has changed since its last
  run: first the cleanup the last run returned, then the body. On the first render
  there is no cleanup to run.
\<close>

definition commitEffects :: "Session \<Rightarrow> Session" where
  "commitEffects ss =
     (if effectDeps ss = Some (currentDeps ss) then ss
      else (autoSendEffect (case effectDeps ss of None \<Rightarrow> ss | Some d \<Rightarrow> autoSendCleanup ss))
             \<lparr>effectDeps := Some (currentDeps ss)\<rparr>)"

text \<open>An interval of the window fires: its callback runs if the interval is still
  active, and does nothing otherwise. The callback sends the input buffer it closed over.
  The \<open>sendData\<close> it calls reads \<open>state.port\<close> and \<open>state.sendConfig\<close> of the render
  that started the interval; any change of \<open>isConnected\<close>, \<open>isHex\<close> or \<open>addCRLF\<close> since
  then has run the cleanup, which cleared the interval, so an active interval sees the
  current values.\<close>

definition intervalFires :: "sendEnv \<Rightarrow> nat \<Rightarrow> Session \<Rightarrow> Session" where
  "intervalFires env h ss =
     (case find (\<lambda>i. interval_id i = h) (intervals ss) of
        None \<Rightarrow> ss
      | Some i \<Rightarrow> ss\<lparr>state := sendData env (TextPayload (interval_payload i)) None (state ss)\<rparr>)"

text \<open>
  The events of a session. \<open>SetState f\<close> is any update of the React state (a setting
  changed, a connect, a received chunk, a send from the input line, cleared logs);
  every event is followed by a render and its effects.
\<close>

datatype event =
    SetState "SerialState \<Rightarrow> SerialState"
  | SetInputBuffer jsstring
  | Disconnect stamp
  | IntervalFires sendEnv nat

definition apply_event :: "event \<Rightarrow> Session \<Rightarrow> Session" where
  "apply_event ev ss =
     (case ev of
        SetState f \<Rightarrow> ss\<lparr>state := f (state ss)\<rparr>
      | SetInputBuffer b \<Rightarrow> ss\<lparr>inputBuffer := b\<rparr>
      | Disconnect st \<Rightarrow> handleDisconnect st ss
      | IntervalFires env h \<Rightarrow> intervalFires env h ss)"

definition step :: "Session \<Rightarrow> event \<Rightarrow> Session" where
  "step ss ev = commitEffects (apply_event ev ss)"

definition run :: "event list \<Rightarrow> Session \<Rightarrow> Session" where
  "run evs ss = foldl step ss evs"

text \<open>The session after the first render of \<open>App\<close>.\<close>

definition initialSession :: Session where
  "initialSession =
     commitEffects
       \<lparr>state = initialState, inputBuffer = [], keepReadingRef = True,
        autoSendTimerRef = None, intervals = [], lastTimerId = 0, effectDeps = None\<rparr>"

inductive reachable :: "Session \<Rightarrow> bool" where
  reachable_initial: "reachable initialSession"
| reachable_step: "reachable ss \<Longrightarrow> reachable (step ss ev)"

text \<open>The two ways of disarming the timer: a disconnect, and the auto-repeat check box
  switched off (\<open>App.tsx\<close>, line 561).\<close>

definition autoRepeatOff :: "SerialState \<Rightarrow> SerialState" where
  "autoRepeatOff prev = prev\<lparr>sendConfig := (sendConfig prev)\<lparr>autoRepeat := False\<rparr>\<rparr>"

definition timerTicks :: "(sendEnv \<times> nat) list \<Rightarrow> event list" where
  "timerTicks ts = map (\<lambda>(env, h). IntervalFires env h) ts"

section \<open>Analysis request builder\<close>

text \<open>
  \<open>handleAiAnalysis\<close> (\<open>App.tsx\<close>, lines 354 to 376):
  \<^verbatim>\<open>
    if (!state.aiConfig.apiKey) { setState(prev => ({ ...prev, showAiSettings: true })); return; }
    if (state.logs.length === 0) return;
    const combinedLogs = state.logs
      .slice(-100)
      .map(l => {
        const content = state.isHexMode ? l.hex
                      : l.data.replace(/\r/g, '\\r').replace(/\n/g, '\\n');
        return `${l.type.toUpperCase()}: ${content}`;
      })
      .join('\n');
    const result = await analyzeLogs(combinedLogs, state.aiConfig);
  \<close>
  and \<open>analyzeLogs\<close> (\<open>services/geminiService\<close>), which embeds \<open>logs.slice(-5000)\<close> in a
  fixed prompt and sends the prompt to the provider.
\<close>

definition typeName :: "LogType \<Rightarrow> jsstring" where
  "typeName ty =
     (case ty of Rx \<Rightarrow> ascii ''rx'' | Tx \<Rightarrow> ascii ''tx'' | Info \<Rightarrow> ascii ''info''
      | Error \<Rightarrow> ascii ''error'')"

definition replaceUnit :: "code_unit \<Rightarrow> jsstring \<Rightarrow> jsstring \<Rightarrow> jsstring" where
  "replaceUnit c r s = concat (map (\<lambda>x. if x = c then r else [x]) s)"

definition renderForAnalysis :: "bool \<Rightarrow> LogEntry \<Rightarrow> jsstring" where
  "renderForAnalysis hexMode l =
     (let content = (if hexMode then hex l
                     else replaceUnit 0x0A [0x5C, 0x6E] (replaceUnit 0x0D [0x5C, 0x72] (data l)))
      in toUpperCase (typeName (type_entry l)) @ ascii '': '' @ content)"

definition combinedLogs :: "SerialState \<Rightarrow> jsstring" where
  "combinedLogs s = join [0x0A] (map (renderForAnalysis (isHexMode s)) (slice_last 100 (logs s)))"

definition promptHead :: jsstring where
  "promptHead =
     [0x000A, 0x0020, 0x0020, 0x0020, 0x0020, 0x4F60, 0x662F, 0x4E00, 0x4F4D, 0x8D44, 0x6DF1,
      0x7684, 0x5D4C, 0x5165, 0x5F0F, 0x7CFB, 0x7EDF, 0x5DE5, 0x7A0B, 0x5E08, 0x548C, 0x901A,
      0x4FE1, 0x534F, 0x8BAE, 0x4E13, 0x5BB6, 0x3002, 0x000A, 0x0020, 0x0020, 0x0020, 0x0020,
      0x4EE5, 0x4E0B, 0x662F, 0x4E00, 0x6BB5, 0x4E32, 0x53E3, 0x901A, 0x4FE1, 0x65E5, 0x5FD7,
      0xFF08, 0x0053, 0x0065, 0x0072, 0x0069, 0x0061, 0x006C, 0x0020, 0x0050, 0x006F, 0x0072,
      0x0074, 0x0020, 0x004C, 0x006F, 0x0067, 0x0073, 0xFF09, 0x3002, 0x000A, 0x0020, 0x0020,
      0x0020, 0x0020, 0x8BF7, 0x5BF9, 0x65E5, 0x5FD7, 0x8FDB, 0x884C, 0x6DF1, 0x5165, 0x5206,
      0x6790, 0xFF0C, 0x91CD, 0x70B9, 0x5173, 0x6CE8, 0x4EE5, 0x4E0B, 0x51E0, 0x70B9, 0xFF1A,
      0x000A, 0x0020, 0x0020, 0x0020, 0x0020, 0x000A, 0x0020, 0x0020, 0x0020, 0x0020, 0x0031,
      0x002E, 0x0020, 0x002A, 0x002A, 0x534F, 0x8BAE, 0x8BC6, 0x522B, 0x002A, 0x002A, 0xFF1A,
      0x5206, 0x6790, 0x901A, 0x4FE1, 0x6A21, 0x5F0F, 0xFF0C, 0x8BC6, 0x522B, 0x662F, 0x5426,
      0x4F7F, 0x7528, 0x4E86, 0x6807, 0x51C6, 0x534F, 0x8BAE, 0xFF08, 0x5982, 0x0020, 0x004D,
      0x006F, 0x0064, 0x0062, 0x0075, 0x0073, 0x002C, 0x0020, 0x0041, 0x0054, 0x0020, 0x6307,
      0x4EE4, 0x002C, 0x0020, 0x004E, 0x004D, 0x0045, 0x0041, 0x002D, 0x0030, 0x0031, 0x0038,
      0x0033, 0x0020, 0x7B49, 0xFF09, 0x6216, 0x8005, 0x662F, 0x67D0, 0x79CD, 0x81EA, 0x5B9A,
      0x4E49, 0x5E27, 0x7ED3, 0x6784, 0x3002, 0x000A, 0x0020, 0x0020, 0x0020, 0x0020, 0x0032,
      0x002E, 0x0020, 0x002A, 0x002A, 0x6570, 0x636E, 0x89E3, 0x6790, 0x002A, 0x002A, 0xFF1A,
      0x5C1D, 0x8BD5, 0x89E3, 0x8BFB, 0x6570, 0x636E, 0x5E27, 0x7684, 0x542B, 0x4E49, 0xFF08,
      0x4F8B, 0x5982, 0xFF1A, 0x547D, 0x4EE4, 0x5934, 0x3001, 0x6570, 0x636E, 0x957F, 0x5EA6,
      0x3001, 0x6709, 0x6548, 0x8F7D, 0x8377, 0x3001, 0x6821, 0x9A8C, 0x548C, 0xFF09, 0x3002,
      0x000A, 0x0020, 0x0020, 0x0020, 0x0020, 0x0033, 0x002E, 0x0020, 0x002A, 0x002A, 0x5F02,
      0x5E38, 0x68C0, 0x6D4B, 0x002A, 0x002A, 0xFF1A, 0x6307, 0x51FA, 0x4EFB, 0x4F55, 0x6F5C,
      0x5728, 0x7684, 0x901A, 0x4FE1, 0x9519, 0x8BEF, 0x3001, 0x8D85, 0x65F6, 0x3001, 0x91CD,
      0x8BD5, 0x6216, 0x5F02, 0x5E38, 0x7684, 0x6570, 0x636E, 0x6A21, 0x5F0F, 0x3002, 0x000A,
      0x0020, 0x0020, 0x0020, 0x0020, 0x0034, 0x002E, 0x0020, 0x002A, 0x002A, 0x8C03, 0x8BD5,
      0x5EFA, 0x8BAE, 0x002A, 0x002A, 0xFF1A, 0x5982, 0x679C, 0x5B58, 0x5728, 0x95EE, 0x9898,
      0xFF0C, 0x8BF7, 0x63D0, 0x4F9B, 0x5177, 0x4F53, 0x7684, 0x6392, 0x67E5, 0x6B65, 0x9AA4,
      0x6216, 0x5EFA, 0x8BAE, 0x3002, 0x000A, 0x000A, 0x0020, 0x0020, 0x0020, 0x0020, 0x65E5,
      0x5FD7, 0x6570, 0x636E, 0x0020, 0x0028, 0x004C, 0x006F, 0x0067, 0x0020, 0x0044, 0x0061,
      0x0074, 0x0061, 0x0029, 0x003A, 0x000A, 0x0020, 0x0020, 0x0020, 0x0020]"

definition promptTail :: jsstring where
  "promptTail =
     [0x0020, 0x000A, 0x000A, 0x0020, 0x0020, 0x0020, 0x0020, 0x8BF7, 0x4F7F, 0x7528, 0x4E13,
      0x4E1A, 0x7684, 0x4E2D, 0x6587, 0x8FDB, 0x884C, 0x56DE, 0x7B54, 0xFF0C, 0x5E76, 0x4F7F,
      0x7528, 0x0020, 0x004D, 0x0061, 0x0072, 0x006B, 0x0064, 0x006F, 0x0077, 0x006E, 0x0020,
      0x683C, 0x5F0F, 0x4F18, 0x5316, 0x6392, 0x7248, 0x3002, 0x000A, 0x0020, 0x0020]"

definition promptLogData :: "jsstring \<Rightarrow> jsstring" where
  "promptLogData logText = slice_last 5000 logText"

definition analyzeLogsPrompt :: "jsstring \<Rightarrow> jsstring" where
  "analyzeLogsPrompt logText = promptHead @ promptLogData logText @ promptTail"

text \<open>
  \<open>analyzeLogs\<close> (\<open>services/geminiService\<close>) builds the prompt and then, inside its
  \<open>try\<close>:
  \<^verbatim>\<open>
    if (config.provider === 'gemini') {
      if (!config.apiKey) throw new Error("... Gemini API Key");
      const ai = new GoogleGenAI({ apiKey: config.apiKey });
      const model = config.model || "gemini-2.0-flash";
      const response = await ai.models.generateContent({ model, contents: prompt });
      ...
    } else {
      if (!config.apiKey) throw new Error(`... ${config.provider} API Key`);
      if (!config.baseUrl) throw new Error("API Base URL ...");
      const response = await fetch(`${config.baseUrl}/chat/completions`, {
        method: 'POST',
        headers: { 'Content-Type': 'application/json',
                   'Authorization': `Bearer ${config.apiKey}` },
        body: JSON.stringify({ model: config.model,
          messages: [ { role: 'system', content: '...' }, { role: 'user', content: prompt } ],
          stream: false }) });
      ...
    }
  \<close>
  An error thrown before the request is a value of \<open>analysisError\<close>: \<open>analyzeLogs\<close>
  catches it and returns a diagnostic text, and nothing is sent. Otherwise the model
  gives the request that is sent to the provider.
\<close>

datatype analysisError = MissingApiKey AIProvider | MissingBaseUrl

record generateContentRequest =
  gemini_apiKey :: jsstring
  gemini_model :: jsstring
  gemini_contents :: jsstring

record chatCompletionsRequest =
  chat_url :: jsstring
  chat_bearer :: jsstring
  chat_model :: jsstring
  chat_system :: jsstring
  chat_user :: jsstring

datatype serviceRequest =
    GenerateContent generateContentRequest
  | ChatCompletions chatCompletionsRequest

definition systemMessage :: jsstring where
  "systemMessage =
     [0x4F60, 0x662F, 0x4E13, 0x4E1A, 0x7684, 0x5D4C, 0x5165, 0x5F0F, 0x4E32, 0x53E3, 0x8C03,
      0x8BD5, 0x52A9, 0x624B, 0x3002]"

definition analyzeLogs :: "jsstring \<Rightarrow> AIConfig \<Rightarrow> analysisError + serviceRequest" where
  "analyzeLogs logText cfg =
     (let prompt = analyzeLogsPrompt logText in
      if provider cfg = Gemini then
        (if apiKey cfg = [] then Inl (MissingApiKey Gemini)
         else Inr (GenerateContent
                \<lparr>gemini_apiKey = apiKey cfg,
                 gemini_model = (if model cfg = [] then ascii ''gemini-2.0-flash'' else model cfg),
                 gemini_contents = prompt\<rparr>))
      else
        (if apiKey cfg = [] then Inl (MissingApiKey (provider cfg))
         else if baseUrl cfg = [] then Inl MissingBaseUrl
         else Inr (ChatCompletions
                \<lparr>chat_url = baseUrl cfg @ ascii ''/chat/completions'',
                 chat_bearer = apiKey cfg,
                 chat_model = model cfg,
                 chat_system = systemMessage,
                 chat_user = prompt\<rparr>)))"

text \<open>The prompt a request carries.\<close>

definition requestPrompt :: "serviceRequest \<Rightarrow> jsstring" where
  "requestPrompt req =
     (case req of GenerateContent g \<Rightarrow> gemini_contents g | ChatCompletions c \<Rightarrow> chat_user c)"

text \<open>\<open>handleAiAnalysis\<close> returns what its call of \<open>analyzeLogs\<close> does, if it calls it,
  and the state it leaves.\<close>

definition handleAiAnalysis :: "SerialState \<Rightarrow> (analysisError + serviceRequest) option \<times> SerialState" where
  "handleAiAnalysis s =
     (if apiKey (aiConfig s) = [] then (None, s\<lparr>showAiSettings := True\<rparr>)
      else if length (logs s) = 0 then (None, s)
      else (Some (analyzeLogs (combinedLogs s) (aiConfig s)), s))"

section \<open>Notions used by the properties\<close>

text \<open>Whether a call of \<open>sendData\<close> treats its text as hexadecimal: the argument, or by
  default the setting of the session.\<close>

definition hexRequested :: "bool option \<Rightarrow> SerialState \<Rightarrow> bool" where
  "hexRequested isHexArg s = (case isHexArg of Some b \<Rightarrow> b | None \<Rightarrow> isHex (sendConfig s))"

text \<open>\<open>isConnected\<close> and \<open>port\<close> are set by the same \<open>setState\<close> calls, in
  \<open>handleConnect\<close> and in \<open>handleDisconnect\<close>: the session is connected exactly when it
  holds a port.\<close>

definition portConsistent :: "SerialState \<Rightarrow> bool" where
  "portConsistent s = (isConnected s = (port s \<noteq> None))"

text \<open>The condition under which the auto-send effect arms the timer.\<close>

definition armed :: "Session \<Rightarrow> bool" where
  "armed ss = (autoRepeat (sendConfig (state ss)) \<and> isConnected (state ss) \<and> inputBuffer ss \<noteq> [])"

text \<open>Every active interval of the window is the one \<open>autoSendTimerRef\<close> holds, and the
  ref never holds the falsy handle 0.\<close>

definition timersOwned :: "Session \<Rightarrow> bool" where
  "timersOwned ss =
     (list_all (\<lambda>i. autoSendTimerRef ss = Some (interval_id i)) (intervals ss)
      \<and> autoSendTimerRef ss \<noteq> Some 0)"

text \<open>Moreover the effect has run for the rendered dependencies, and the ref holds a
  handle only while the timer is armed.\<close>

definition timerInvariant :: "Session \<Rightarrow> bool" where
  "timerInvariant ss =
     (timersOwned ss
      \<and> effectDeps ss = Some (currentDeps ss)
      \<and> (armed ss \<or> autoSendTimerRef ss = None))"

subsection \<open>Sample inputs\<close>

definition sampleStamp :: stamp where
  "sampleStamp = \<lparr>newId = ascii ''k3x9a1q'', now = 0\<rparr>"

definition numberedRequest :: "nat \<Rightarrow> appendRequest" where
  "numberedRequest k =
     \<lparr>req_stamp = \<lparr>newId = ascii ''k3x9a1q'', now = k\<rparr>, req_type = Info,
      req_data = ascii ''ping'', req_rawBytes = None\<rparr>"

definition sampleRequests :: "appendRequest list" where
  "sampleRequests =
     [\<lparr>req_stamp = sampleStamp, req_type = Rx, req_data = ascii ''OK'', req_rawBytes = Some [0x4F, 0x4B, 0x0D]\<rparr>,
      \<lparr>req_stamp = sampleStamp, req_type = Tx, req_data = ascii ''AT'', req_rawBytes = Some [0x41, 0x54]\<rparr>,
      \<lparr>req_stamp = sampleStamp, req_type = Info, req_data = ascii ''note'', req_rawBytes = None\<rparr>]"

definition samplePort :: SerialPort where
  "samplePort =
     \<lparr>port_writable = True, port_locked = False, port_written = [],
      port_dtr = False, port_rts = False\<rparr>"

definition sampleSendEnv :: sendEnv where
  "sampleSendEnv = \<lparr>send_stamp = sampleStamp, getWriterError = [], writeOutcome = Resolves\<rparr>"

definition sampleSignalEnv :: signalEnv where
  "sampleSignalEnv = \<lparr>signal_stamp = sampleStamp, setSignalsOutcome = Resolves\<rparr>"

definition sampleConnectEnv :: connectEnv where
  "sampleConnectEnv =
     \<lparr>connect_stamp = sampleStamp, connect_stamp2 = sampleStamp,
      connectOutcome = Opened samplePort Resolves\<rparr>"

text \<open>The session of the scenario: the initial state, connected to the sample port.\<close>

definition connectedState :: SerialState where
  "connectedState = handleConnect sampleConnectEnv initialState"

text \<open>A session with the timer armed: connected, auto-repeat on, \<open>AT\<close> in the input.\<close>

definition connectUpdate :: "SerialState \<Rightarrow> SerialState" where
  "connectUpdate prev = prev\<lparr>isConnected := True, port := Some samplePort\<rparr>"

definition autoRepeatOn :: "SerialState \<Rightarrow> SerialState" where
  "autoRepeatOn prev = prev\<lparr>sendConfig := (sendConfig prev)\<lparr>autoRepeat := True\<rparr>\<rparr>"

definition armedSession :: Session where
  "armedSession =
     run [SetState connectUpdate, SetInputBuffer (ascii ''AT''), SetState autoRepeatOn]
       initialSession"

text \<open>A state with a key configured and two entries in the log: a short note, then a
  transmitted text of 5000 letters \<open>A\<close>.\<close>

definition longLogState :: SerialState where
  "longLogState =
     addLog sampleStamp Tx (replicate 5000 0x41) (Some (replicate 5000 0x41))
       (addLog sampleStamp Info (ascii ''boot'') None
          (initialState\<lparr>aiConfig := (aiConfig initialState)\<lparr>apiKey := ascii ''key''\<rparr>\<rparr>))"

text \<open>The same log with an OpenAI-compatible provider: once with a base URL, once without.\<close>

definition customLogState :: SerialState where
  "customLogState =
     longLogState
       \<lparr>aiConfig := \<lparr>provider = Custom, apiKey = ascii ''key'',
                     baseUrl = ascii ''http://localhost:8000/v1'', model = ascii ''local''\<rparr>\<rparr>"

definition noUrlLogState :: SerialState where
  "noUrlLogState =
     longLogState
       \<lparr>aiConfig := \<lparr>provider = Custom, apiKey = ascii ''key'', baseUrl = [], model = []\<rparr>\<rparr>"

section \<open>Properties of the codec\<close>

subsection \<open>Hexadecimal round trip\<close>

lemma upt16: "[0..<16] = [0,1,2,3,4,5,6,7,8,9,10,11,12,13,14,15::nat]"
  by (simp add: upt_rec)

lemma nibble_cases:
  assumes "d < (16::nat)"
  shows "d \<in> {0,1,2,3,4,5,6,7,8,9,10,11,12,13,14,15}"
proof -
  from assms have "d \<in> set [0..<16]" by simp
  then show ?thesis unfolding upt16 by simp
qed

lemma upper_digit_isHex:
  assumes "d < 16"
  shows "isHexDigit (upperUnit (digitUnit d))"
  using nibble_cases [OF assms]
  by (elim insertE emptyE) (simp_all add: isHexDigit_def upperUnit_def digitUnit_def)

lemma upper_digit_value:
  assumes "d < 16"
  shows "hexDigitValue (upperUnit (digitUnit d)) = d"
  using nibble_cases [OF assms]
  by (elim insertE emptyE) (simp_all add: hexDigitValue_def upperUnit_def digitUnit_def)

lemma toStringRadix16_byte:
  "n < 256 \<Longrightarrow> padStart 2 0x30 (toStringRadix 16 n) = [digitUnit (n div 16), digitUnit (n mod 16)]"
proof -
  assume n: "n < 256"
  show ?thesis
  proof (cases "n < 16")
    case True
    then show ?thesis
      by (simp add: toStringRadix.simps[of 16 n] padStart_def digitUnit_def)
  next
    case False
    with n have "n div 16 < 16" by simp
    then have "toStringRadix 16 (n div 16) = [digitUnit (n div 16)]"
      by (simp add: toStringRadix.simps[of 16 "n div 16"])
    with False show ?thesis
      by (simp add: toStringRadix.simps[of 16 n] padStart_def)
  qed
qed

lemma byteToHex_eq:
  "byteToHex b = [upperUnit (digitUnit (unat b div 16)), upperUnit (digitUnit (unat b mod 16))]"
proof -
  have "unat b < 256" using unsigned_less[of b] by simp
  then show ?thesis by (simp add: byteToHex_def toUpperCase_def toStringRadix16_byte)
qed

lemma length_byteToHex: "length (byteToHex b) = 2"
  by (simp add: byteToHex_eq)

lemma byteToHex_digits: "filter isHexDigit (byteToHex b) = byteToHex b"
proof -
  have "unat b < 256" using unsigned_less[of b] by simp
  then have "unat b div 16 < 16" by simp
  then show ?thesis by (simp add: byteToHex_eq upper_digit_isHex)
qed

lemma parseInt16_byteToHex: "of_nat (parseInt16 (byteToHex b)) = b"
proof -
  have "unat b < 256" using unsigned_less[of b] by simp
  then have hi: "unat b div 16 < 16" by simp
  have lo: "unat b mod 16 < 16" by simp
  have "parseInt16 (byteToHex b) = unat b div 16 * 16 + unat b mod 16"
    using hi lo by (simp add: parseInt16_def byteToHex_eq upper_digit_isHex upper_digit_value)
  then show ?thesis by simp
qed

lemma space_not_hex: "\<not> isHexDigit 0x20"
  by (simp add: isHexDigit_def)

lemma strip_join_hex: "filter isHexDigit (join [0x20] (map byteToHex bs)) = concat (map byteToHex bs)"
  by (induction bs rule: induct_list012) (simp_all add: byteToHex_digits space_not_hex)

lemma drop_concat_pairs: "drop (2 * k) (concat (map byteToHex bs)) = concat (map byteToHex (drop k bs))"
proof (induction bs arbitrary: k)
  case Nil
  then show ?case by simp
next
  case (Cons b bs)
  show ?case
  proof (cases k)
    case 0
    then show ?thesis by simp
  next
    case (Suc j)
    then show ?thesis using Cons[of j] by (simp add: length_byteToHex)
  qed
qed

lemma substring_concat_pairs:
  assumes "k < length bs"
  shows "substring (concat (map byteToHex bs)) (2 * k) (2 * k + 2) = byteToHex (bs ! k)"
proof -
  from assms have "drop k bs = bs ! k # drop (Suc k) bs" by (simp add: Cons_nth_drop_Suc)
  then show ?thesis
    by (simp add: substring_def drop_concat_pairs length_byteToHex)
qed

lemma length_concat_pairs: "length (concat (map byteToHex bs)) = 2 * length bs"
  by (induction bs) (simp_all add: length_byteToHex)

lemma parseHexLoop_pairs:
  assumes "k \<le> length bs" "length bytes = length bs"
  shows "parseHexLoop (concat (map byteToHex bs)) (2 * k) bytes = take k bytes @ drop k bs"
  using assms
proof (induction "length bs - k" arbitrary: k bytes)
  case 0
  then show ?case
    by (subst parseHexLoop.simps) (simp add: length_concat_pairs)
next
  case (Suc m)
  then have k: "k < length bs" by simp
  have "parseHexLoop (concat (map byteToHex bs)) (2 * k) bytes
      = parseHexLoop (concat (map byteToHex bs)) (2 * k + 2) (bytes[k := bs ! k])"
    using k
    by (subst parseHexLoop.simps)
       (simp only: length_concat_pairs substring_concat_pairs parseInt16_byteToHex
          nonzero_mult_div_cancel_left, simp)
  then have step: "parseHexLoop (concat (map byteToHex bs)) (2 * k) bytes
      = parseHexLoop (concat (map byteToHex bs)) (2 * Suc k) (bytes[k := bs ! k])"
    by simp
  have "m = length bs - Suc k" using Suc.hyps(2) by simp
  then have "parseHexLoop (concat (map byteToHex bs)) (2 * Suc k) (bytes[k := bs ! k])
      = take (Suc k) (bytes[k := bs ! k]) @ drop (Suc k) bs"
    using Suc.hyps(1)[of "Suc k" "bytes[k := bs ! k]"] k Suc.prems by simp
  also have "\<dots> = take k bytes @ drop k bs"
    using k Suc.prems by (simp add: take_Suc_conv_app_nth Cons_nth_drop_Suc)
  finally show ?case using step by simp
qed

lemma parseHexString_bufferToHex:
  "parseHexString (bufferToHex b) = (if b = [] then None else Some b)"
proof -
  have clean: "stripNonHex (bufferToHex b) = concat (map byteToHex b)"
    by (simp add: stripNonHex_def bufferToHex_def strip_join_hex)
  have "parseHexLoop (concat (map byteToHex b)) 0 (replicate (length b) 0) = b"
    using parseHexLoop_pairs[of 0 b "replicate (length b) 0"] by simp
  moreover have len: "length (stripNonHex (bufferToHex b)) = 2 * length b"
    by (simp add: clean length_concat_pairs)
  ultimately show ?thesis
    unfolding parseHexString_def Let_def len by (simp add: clean)
qed

text \<open>
  \<^bold>\<open>Claim C2\<close> (hexadecimal round trip). The claim: decoding the rendering gives back
  every byte sequence. \<open>bufferToHex\<close> renders each byte as two upper-case hexadecimal
  digits, joined by spaces, and \<open>parseHexString\<close> gives back every non-empty sequence.
  The empty sequence renders as the empty string, which \<open>parseHexString\<close> rejects.
\<close>

theorem hex_roundtrip_nonempty:
  "(b \<noteq> [] \<longrightarrow> parseHexString (bufferToHex b) = Some b)
   \<and> parseHexString (bufferToHex []) = None
   \<and> bufferToHex b
       = join [0x20]
           (map (\<lambda>x. [upperUnit (digitUnit (unat x div 16)), upperUnit (digitUnit (unat x mod 16))]) b)"
proof (intro conjI)
  show "b \<noteq> [] \<longrightarrow> parseHexString (bufferToHex b) = Some b"
    by (simp add: parseHexString_bufferToHex)
  show "parseHexString (bufferToHex []) = None"
    by (simp add: parseHexString_bufferToHex)
  show "bufferToHex b
       = join [0x20]
           (map (\<lambda>x. [upperUnit (digitUnit (unat x div 16)), upperUnit (digitUnit (unat x mod 16))]) b)"
    unfolding bufferToHex_def
    by (rule arg_cong [where f = "join [0x20]"]) (simp add: byteToHex_eq)
qed

theorem hex_roundtrip_nonempty_witness:
  "parseHexString (bufferToHex [0x01, 0xAB]) = Some [0x01, 0xAB]
   \<and> bufferToHex [0x01, 0xAB] = ascii ''01 AB''"
proof
  have ne: "[0x01, 0xAB] \<noteq> ([] :: byte list)" by simp
  have "[0x01, 0xAB] \<noteq> ([] :: byte list)
        \<longrightarrow> parseHexString (bufferToHex [0x01, 0xAB]) = Some [0x01, 0xAB]"
    using hex_roundtrip_nonempty [of "[0x01, 0xAB]"] by (rule conjunct1)
  then show "parseHexString (bufferToHex [0x01, 0xAB]) = Some [0x01, 0xAB]"
    using ne by (rule mp)
  show "bufferToHex [0x01, 0xAB] = ascii ''01 AB''"
    by (simp add: bufferToHex_def byteToHex_eq upperUnit_def digitUnit_def ascii_def)
qed

text \<open>
  The empty byte sequence does not survive the round trip.
\<close>

theorem hex_roundtrip_counterexample:
  "parseHexString (bufferToHex []) \<noteq> Some []"
  by (simp add: parseHexString_bufferToHex)

section \<open>Properties of the transcript log\<close>

subsection \<open>Slices\<close>

lemma length_slice_last: "length (slice_last n xs) = min n (length xs)"
  by (simp add: slice_last_def)

lemma slice_last_all: "length xs \<le> n \<Longrightarrow> slice_last n xs = xs"
  by (simp add: slice_last_def)

lemma slice_last_snoc: "slice_last (Suc n) (xs @ [x]) = slice_last n xs @ [x]"
  by (simp add: slice_last_def Suc_diff_le)

lemma slice_last_slice_last:
  assumes "m \<le> n"
  shows "slice_last m (slice_last n xs) = slice_last m xs"
proof -
  have "length xs - (length xs - n) - m + (length xs - n) = length xs - m"
    using assms by arith
  then show ?thesis
    unfolding slice_last_def length_drop drop_drop by simp
qed

lemma slice_last_append_exact: "length ys = n \<Longrightarrow> slice_last n (xs @ ys) = ys"
  by (simp add: slice_last_def)

subsection \<open>Fields after \<open>addLog\<close>\<close>

lemma logs_addLog: "logs (addLog st ty d rb s) = slice_last 2000 (logs s) @ [newEntry st ty d rb]"
  by (simp add: addLog_def)
lemma rxCount_addLog: "rxCount (addLog st ty d rb s) = (if ty = Rx then rxCount s + countedLength d rb else rxCount s)"
  by (simp add: addLog_def)
lemma txCount_addLog: "txCount (addLog st ty d rb s) = (if ty = Tx then txCount s + countedLength d rb else txCount s)"
  by (simp add: addLog_def)
lemma port_addLog: "port (addLog st ty d rb s) = port s"
  by (simp add: addLog_def)
lemma isConnected_addLog: "isConnected (addLog st ty d rb s) = isConnected s"
  by (simp add: addLog_def)
lemma sendConfig_addLog: "sendConfig (addLog st ty d rb s) = sendConfig s"
  by (simp add: addLog_def)
lemma type_newEntry: "type_entry (newEntry st ty d rb) = ty"
  by (simp add: newEntry_def)
lemma data_newEntry: "data (newEntry st ty d rb) = d"
  by (simp add: newEntry_def)
lemma timestamp_newEntry: "timestamp (newEntry st ty d rb) = now st"
  by (simp add: newEntry_def)
lemma writtenChunks_addLog: "writtenChunks (addLog st ty d rb s) = writtenChunks s"
  by (simp add: writtenChunks_def port_addLog)

subsection \<open>Sequences of appends\<close>

lemma addLogs_snoc: "addLogs (rs @ [r]) s = addLogReq (addLogs rs s) r"
  by (simp add: addLogs_def)

lemma logs_addLogReq: "logs (addLogReq s r) = slice_last 2000 (logs s) @ [requestEntry r]"
  by (simp add: addLogReq_def logs_addLog requestEntry_def)

lemma logs_addLogs:
  "rs \<noteq> [] \<Longrightarrow> logs (addLogs rs s) = slice_last 2001 (logs s @ map requestEntry rs)"
proof (induction rs rule: rev_induct)
  case Nil
  then show ?case by simp
next
  case (snoc r rs)
  show ?case
  proof (cases "rs = []")
    case True
    have "slice_last (Suc 2000) (logs s @ [requestEntry r]) = slice_last 2000 (logs s) @ [requestEntry r]"
      by (rule slice_last_snoc)
    with True show ?thesis by (simp add: addLogs_def logs_addLogReq)
  next
    case False
    then have ih: "logs (addLogs rs s) = slice_last 2001 (logs s @ map requestEntry rs)"
      by (rule snoc.IH)
    have "logs (addLogs (rs @ [r]) s) = slice_last 2000 (logs (addLogs rs s)) @ [requestEntry r]"
      by (simp add: addLogs_snoc logs_addLogReq)
    also have "\<dots> = slice_last 2000 (logs s @ map requestEntry rs) @ [requestEntry r]"
      by (simp add: ih slice_last_slice_last)
    also have "\<dots> = slice_last (Suc 2000) ((logs s @ map requestEntry rs) @ [requestEntry r])"
      by (rule slice_last_snoc [symmetric])
    finally show ?thesis by simp
  qed
qed

lemma timestamp_numbered: "timestamp (requestEntry (numberedRequest k)) = k"
  by (simp add: requestEntry_def numberedRequest_def timestamp_newEntry)

text \<open>
  \<^bold>\<open>Claim C1\<close> (capacity of the transcript). The claim: after any append the log holds
  at most 2000 entries, and after more than 2000 appends it holds exactly the last 2000.
  The code keeps the last 2000 entries of the old log and then adds the new one
  (\<open>logs_addLogs\<close>: the log is the last 2001 of all entries). After 2001 appends to the
  empty log all 2001 entries are in the log, the oldest one, stamped 0, among them.
\<close>

theorem addLog_retains_2001_entries:
  "length (logs (addLogs (map numberedRequest [0..<2001]) initialState)) = 2001
   \<and> map timestamp (logs (addLogs (map numberedRequest [0..<2001]) initialState)) = [0..<2001]"
proof -
  have ne: "map numberedRequest [0..<2001] \<noteq> []" by simp
  have "logs (addLogs (map numberedRequest [0..<2001]) initialState)
        = slice_last 2001 (map requestEntry (map numberedRequest [0..<2001]))"
    using logs_addLogs [OF ne, of initialState] by (simp add: initialState_def)
  also have "\<dots> = map requestEntry (map numberedRequest [0..<2001])"
    by (rule slice_last_all) simp
  finally have eq: "logs (addLogs (map numberedRequest [0..<2001]) initialState)
        = map requestEntry (map numberedRequest [0..<2001])" .
  have "map timestamp (map requestEntry (map numberedRequest [0..<2001])) = map (\<lambda>k. k) [0..<2001]"
    unfolding map_map by (rule map_cong) (simp_all add: timestamp_numbered)
  then show ?thesis unfolding eq by simp
qed

subsection \<open>Byte counters\<close>

lemma rxCount_addLogReq:
  "rxCount (addLogReq s r)
   = rxCount s + (if req_type r = Rx then countedLength (req_data r) (req_rawBytes r) else 0)"
  by (simp add: addLogReq_def rxCount_addLog)

lemma txCount_addLogReq:
  "txCount (addLogReq s r)
   = txCount s + (if req_type r = Tx then countedLength (req_data r) (req_rawBytes r) else 0)"
  by (simp add: addLogReq_def txCount_addLog)

lemma rxCount_addLogs:
  "rxCount (addLogs rs s)
   = rxCount s + sum_list (map (\<lambda>r. countedLength (req_data r) (req_rawBytes r))
                              (filter (\<lambda>r. req_type r = Rx) rs))"
proof (induction rs rule: rev_induct)
  case Nil
  then show ?case by (simp add: addLogs_def)
next
  case (snoc r rs)
  then show ?case by (simp add: addLogs_snoc rxCount_addLogReq)
qed

lemma txCount_addLogs:
  "txCount (addLogs rs s)
   = txCount s + sum_list (map (\<lambda>r. countedLength (req_data r) (req_rawBytes r))
                              (filter (\<lambda>r. req_type r = Tx) rs))"
proof (induction rs rule: rev_induct)
  case Nil
  then show ?case by (simp add: addLogs_def)
next
  case (snoc r rs)
  then show ?case by (simp add: addLogs_snoc txCount_addLogReq)
qed

text \<open>
  \<^bold>\<open>Claim C5\<close> (byte counters). For every sequence of appends whose received and
  transmitted requests carry their raw bytes, the received total grows by the sum of
  the raw lengths of the received appends and by nothing else, the transmitted total by
  the sum of the raw lengths of the transmitted appends and by nothing else, and
  neither total decreases.
\<close>

theorem byte_counters_sum_raw_lengths:
  assumes "\<forall>r \<in> set rs. req_type r = Rx \<or> req_type r = Tx \<longrightarrow> req_rawBytes r \<noteq> None"
  shows "rxCount (addLogs rs s) = rxCount s + sum_list (map rawLength (filter (\<lambda>r. req_type r = Rx) rs))
       \<and> txCount (addLogs rs s) = txCount s + sum_list (map rawLength (filter (\<lambda>r. req_type r = Tx) rs))
       \<and> rxCount s \<le> rxCount (addLogs rs s)
       \<and> txCount s \<le> txCount (addLogs rs s)"
proof -
  have rx: "map (\<lambda>r. countedLength (req_data r) (req_rawBytes r)) (filter (\<lambda>r. req_type r = Rx) rs)
            = map rawLength (filter (\<lambda>r. req_type r = Rx) rs)"
    using assms by (intro map_cong) (auto simp: countedLength_def rawLength_def)
  have tx: "map (\<lambda>r. countedLength (req_data r) (req_rawBytes r)) (filter (\<lambda>r. req_type r = Tx) rs)
            = map rawLength (filter (\<lambda>r. req_type r = Tx) rs)"
    using assms by (intro map_cong) (auto simp: countedLength_def rawLength_def)
  show ?thesis
    using rxCount_addLogs [of rs s] txCount_addLogs [of rs s] by (simp add: rx tx)
qed

text \<open>
  The three sample requests: a received chunk of 3 bytes, a transmitted one of 2, a note.
\<close>

theorem byte_counters_sum_raw_lengths_witness:
  "rxCount (addLogs sampleRequests initialState) = 3
   \<and> txCount (addLogs sampleRequests initialState) = 2"
proof -
  have h: "\<forall>r \<in> set sampleRequests. req_type r = Rx \<or> req_type r = Tx \<longrightarrow> req_rawBytes r \<noteq> None"
    by (simp add: sampleRequests_def)
  show ?thesis
    using byte_counters_sum_raw_lengths [OF h, of initialState]
    by (simp add: sampleRequests_def rawLength_def initialState_def)
qed

section \<open>Properties of the write path\<close>

subsection \<open>The branches of \<open>sendData\<close>\<close>

lemma sendData_no_port:
  "port s = None \<Longrightarrow> sendData env c h s = addLog (send_stamp env) Error msgNotConnected None s"
  by (simp add: sendData_def)

lemma sendData_not_writable:
  "port s = Some p \<Longrightarrow> \<not> port_writable p \<Longrightarrow>
   sendData env c h s = addLog (send_stamp env) Error msgNotConnected None s"
  by (simp add: sendData_def)

lemma sendData_locked:
  "port s = Some p \<Longrightarrow> port_writable p \<Longrightarrow> port_locked p \<Longrightarrow>
   sendData env c h s =
     addLog (send_stamp env) Error (msgSendError @ getWriterError env) None
       (s\<lparr>port := Some (p\<lparr>port_locked := False\<rparr>)\<rparr>)"
  by (simp add: sendData_def)

lemma sendData_hex_invalid:
  "port s = Some p \<Longrightarrow> port_writable p \<Longrightarrow> \<not> port_locked p \<Longrightarrow> hexRequested h s \<Longrightarrow>
   parseHexString t = None \<Longrightarrow>
   sendData env (TextPayload t) h s = addLog (send_stamp env) Error msgHexFormat None s"
  by (simp add: sendData_def hexRequested_def)

lemma sendData_text:
  "port s = Some p \<Longrightarrow> port_writable p \<Longrightarrow> \<not> port_locked p \<Longrightarrow> \<not> hexRequested h s \<Longrightarrow>
   sendData env (TextPayload t) h s =
     transmit env (textEncode (if addCRLF (sendConfig s) \<and> \<not> endsWith t CRLF then t @ CRLF else t))
       (if addCRLF (sendConfig s) \<and> \<not> endsWith t CRLF then t @ CRLF else t) s"
  by (simp add: sendData_def hexRequested_def Let_def)

lemma transmit_resolves:
  "writeOutcome env = Resolves \<Longrightarrow> port s = Some p \<Longrightarrow>
   transmit env bytes disp s =
     addLog (send_stamp env) Tx disp (Some bytes)
       (s\<lparr>port := Some (p\<lparr>port_written := port_written p @ [bytes]\<rparr>)\<rparr>)"
  by (simp add: transmit_def)

lemma writtenChunks_unlock:
  "port s = Some p \<Longrightarrow> writtenChunks (s\<lparr>port := Some (p\<lparr>port_locked := False\<rparr>)\<rparr>) = writtenChunks s"
  by (simp add: writtenChunks_def)

lemma writtenChunks_write:
  "port s = Some p \<Longrightarrow>
   writtenChunks (s\<lparr>port := Some (p\<lparr>port_written := port_written p @ [bytes]\<rparr>)\<rparr>)
     = writtenChunks s @ [bytes]"
  by (simp add: writtenChunks_def)

lemma parseHexString_None:
  "(parseHexString t = None) = (length (stripNonHex t) = 0 \<or> odd (length (stripNonHex t)))"
  by (simp add: parseHexString_def Let_def odd_iff_mod_2_eq_one)

text \<open>
  \<^bold>\<open>Claim C3\<close> (malformed hexadecimal input). \<open>parseHexString\<close> keeps the characters of
  \<open>[0-9A-Fa-f]\<close> and fails exactly when none or an odd number of them is left. When it
  fails in a send that treats its text as hexadecimal, the send appends one error
  entry and no transmitted entry, writes nothing to the channel and leaves the
  transmitted total; on an open, unlocked port the entry is the format error.
\<close>

theorem hex_send_format_error:
  "((parseHexString t = None)
      = (length (filter isHexDigit t) = 0 \<or> odd (length (filter isHexDigit t))))
   \<and> (parseHexString t = None \<and> hexRequested h s \<longrightarrow>
        (\<exists>m. logs (sendData env (TextPayload t) h s)
              = slice_last 2000 (logs s) @ [newEntry (send_stamp env) Error m None])
        \<and> writtenChunks (sendData env (TextPayload t) h s) = writtenChunks s
        \<and> txCount (sendData env (TextPayload t) h s) = txCount s)
   \<and> (parseHexString t = None \<and> hexRequested h s
        \<and> port s = Some p \<and> port_writable p \<and> \<not> port_locked p \<longrightarrow>
        sendData env (TextPayload t) h s = addLog (send_stamp env) Error msgHexFormat None s)"
proof (intro conjI impI)
  show "(parseHexString t = None)
      = (length (filter isHexDigit t) = 0 \<or> odd (length (filter isHexDigit t)))"
    using parseHexString_None [of t] by (simp add: stripNonHex_def)
next
  assume a: "parseHexString t = None \<and> hexRequested h s
        \<and> port s = Some p \<and> port_writable p \<and> \<not> port_locked p"
  then show "sendData env (TextPayload t) h s = addLog (send_stamp env) Error msgHexFormat None s"
    by (simp add: sendData_hex_invalid)
next
  assume a: "parseHexString t = None \<and> hexRequested h s"
  show "\<exists>m. logs (sendData env (TextPayload t) h s)
              = slice_last 2000 (logs s) @ [newEntry (send_stamp env) Error m None]"
  proof (cases "port s")
    case None
    then show ?thesis by (auto simp: sendData_no_port logs_addLog)
  next
    case (Some q)
    then show ?thesis
      using a
      by (cases "port_writable q"; cases "port_locked q")
         (auto simp: sendData_not_writable sendData_locked sendData_hex_invalid logs_addLog)
  qed
next
  assume a: "parseHexString t = None \<and> hexRequested h s"
  show "writtenChunks (sendData env (TextPayload t) h s) = writtenChunks s"
  proof (cases "port s")
    case None
    then show ?thesis by (simp add: sendData_no_port writtenChunks_addLog)
  next
    case (Some q)
    then show ?thesis
      using a
      by (cases "port_writable q"; cases "port_locked q")
         (simp_all add: sendData_not_writable sendData_locked sendData_hex_invalid
            writtenChunks_addLog writtenChunks_unlock)
  qed
next
  assume a: "parseHexString t = None \<and> hexRequested h s"
  show "txCount (sendData env (TextPayload t) h s) = txCount s"
  proof (cases "port s")
    case None
    then show ?thesis by (simp add: sendData_no_port txCount_addLog)
  next
    case (Some q)
    then show ?thesis
      using a
      by (cases "port_writable q"; cases "port_locked q")
         (simp_all add: sendData_not_writable sendData_locked sendData_hex_invalid txCount_addLog)
  qed
qed

subsection \<open>Sample states\<close>






lemma slice_last_single: "slice_last 2000 [x] = [x]"
  by (simp add: slice_last_def)

lemma port_connectedState:
  "port connectedState = Some samplePort"
  by (simp add: connectedState_def handleConnect_def sampleConnectEnv_def Let_def port_addLog
        samplePort_def)

lemma sendConfig_connectedState: "sendConfig connectedState = sendConfig initialState"
  by (simp add: connectedState_def handleConnect_def sampleConnectEnv_def Let_def sendConfig_addLog)

lemma txCount_connectedState: "txCount connectedState = 0"
  by (simp add: connectedState_def handleConnect_def sampleConnectEnv_def Let_def txCount_addLog
        initialState_def)

lemma logs_connectedState:
  "logs connectedState
   = [newEntry sampleStamp Info (msgOpened @ toStringRadix 10 115200 @ ascii '' bps'') None]"
  by (simp add: connectedState_def handleConnect_def sampleConnectEnv_def Let_def logs_addLog
        initialState_def slice_last_def)

lemma writtenChunks_connectedState: "writtenChunks connectedState = []"
  by (simp add: writtenChunks_def port_connectedState samplePort_def)

lemma not_hex_connectedState: "\<not> hexRequested None connectedState"
  by (simp add: hexRequested_def sendConfig_connectedState initialState_def)

lemma parse_three_digits: "parseHexString (ascii ''ABC'') = None"
  by (simp add: parseHexString_def stripNonHex_def ascii_def isHexDigit_def)

text \<open>
  Three digits, \<open>ABC\<close>, sent as hexadecimal on the connected sample session.
\<close>

theorem hex_send_format_error_witness:
  "parseHexString (ascii ''ABC'') = None
   \<and> sendData sampleSendEnv (TextPayload (ascii ''ABC'')) (Some True) connectedState
       = addLog sampleStamp Error msgHexFormat None connectedState
   \<and> writtenChunks (sendData sampleSendEnv (TextPayload (ascii ''ABC'')) (Some True) connectedState) = []
   \<and> txCount (sendData sampleSendEnv (TextPayload (ascii ''ABC'')) (Some True) connectedState) = 0"
  using hex_send_format_error [of "ascii ''ABC''" "Some True" connectedState sampleSendEnv samplePort]
  by (simp add: parse_three_digits hexRequested_def port_connectedState samplePort_def
        sampleSendEnv_def writtenChunks_connectedState txCount_connectedState
        writtenChunks_addLog txCount_addLog)



text \<open>
  \<^bold>\<open>Claim C6\<close> (control signal while not open). The claim: setting a signal outside the
  open state is a no-op reported as an error entry. The code returns at its first line
  when the session holds no port or is not connected: the call changes nothing, neither
  the channel nor the state nor the transcript, so it reports nothing.
\<close>

theorem signal_change_not_open_is_silent:
  assumes "port s = None \<or> \<not> isConnected s"
  shows "handleSignalChange env sg v s = s"
  using assms by (auto simp: handleSignalChange_def split: option.splits)

theorem signal_change_not_open_is_silent_witness:
  "\<not> isConnected initialState
   \<and> handleSignalChange sampleSignalEnv Rts True initialState = initialState"
proof -
  have a: "\<not> isConnected initialState" by (simp add: initialState_def)
  then have "port initialState = None \<or> \<not> isConnected initialState" by simp
  from signal_change_not_open_is_silent [OF this] a show ?thesis by simp
qed

text \<open>
  On the initial, closed session a call of \<open>handleSignalChange\<close> leaves no error entry in
  the log.
\<close>

theorem signal_change_not_open_counterexample:
  "\<not> (\<exists>e \<in> set (logs (handleSignalChange sampleSignalEnv Dtr True initialState)).
         type_entry e = Error)"
  by (simp add: handleSignalChange_def initialState_def)

lemma encode_AT_CRLF: "textEncode (ascii ''AT'' @ CRLF) = [0x41, 0x54, 0x0D, 0x0A]"
  by (simp add: textEncode_def ascii_def CRLF_def scalarOfUnit_def isHighSurrogate_def
        isLowSurrogate_def utf8_def)

lemma endsWith_AT_CRLF: "endsWith (ascii ''AT'' @ CRLF) CRLF"
  by (simp add: endsWith_def ascii_def CRLF_def)

text \<open>
  \<^bold>\<open>Claim C7\<close> (line terminator of a text send). On an open, unlocked port whose write
  resolves, a text send writes and logs the text followed by \<open>\r\n\<close> exactly when the
  option is on and the text does not end with \<open>\r\n\<close> already, and the text as it is
  otherwise. In particular \<open>AT\r\n\<close> with the option off appends one transmitted entry,
  writes the 4 bytes and adds 4 to the transmitted total.
\<close>

theorem text_send_terminator:
  assumes "port s = Some p" and "port_writable p" and "\<not> port_locked p"
    and "\<not> hexRequested h s" and "writeOutcome env = Resolves"
  shows "(addCRLF (sendConfig s) \<and> \<not> endsWith t CRLF \<longrightarrow>
            sendData env (TextPayload t) h s
              = addLog (send_stamp env) Tx (t @ CRLF) (Some (textEncode (t @ CRLF)))
                  (s\<lparr>port := Some (p\<lparr>port_written := port_written p @ [textEncode (t @ CRLF)]\<rparr>)\<rparr>))
       \<and> (\<not> (addCRLF (sendConfig s) \<and> \<not> endsWith t CRLF) \<longrightarrow>
            sendData env (TextPayload t) h s
              = addLog (send_stamp env) Tx t (Some (textEncode t))
                  (s\<lparr>port := Some (p\<lparr>port_written := port_written p @ [textEncode t]\<rparr>)\<rparr>))
       \<and> (\<not> addCRLF (sendConfig s) \<longrightarrow>
            logs (sendData env (TextPayload (ascii ''AT'' @ CRLF)) h s)
              = slice_last 2000 (logs s)
                  @ [newEntry (send_stamp env) Tx (ascii ''AT'' @ CRLF) (Some [0x41, 0x54, 0x0D, 0x0A])]
            \<and> txCount (sendData env (TextPayload (ascii ''AT'' @ CRLF)) h s) = txCount s + 4
            \<and> writtenChunks (sendData env (TextPayload (ascii ''AT'' @ CRLF)) h s)
                = writtenChunks s @ [[0x41, 0x54, 0x0D, 0x0A]])"
proof -
  have send: "sendData env (TextPayload u) h s
      = addLog (send_stamp env) Tx
          (if addCRLF (sendConfig s) \<and> \<not> endsWith u CRLF then u @ CRLF else u)
          (Some (textEncode (if addCRLF (sendConfig s) \<and> \<not> endsWith u CRLF then u @ CRLF else u)))
          (s\<lparr>port := Some (p\<lparr>port_written := port_written p
               @ [textEncode (if addCRLF (sendConfig s) \<and> \<not> endsWith u CRLF then u @ CRLF else u)]\<rparr>)\<rparr>)"
    for u
    by (simp only: sendData_text [OF assms(1-4)] transmit_resolves [OF assms(5) assms(1)])
  have one: "addCRLF (sendConfig s) \<and> \<not> endsWith t CRLF \<longrightarrow>
            sendData env (TextPayload t) h s
              = addLog (send_stamp env) Tx (t @ CRLF) (Some (textEncode (t @ CRLF)))
                  (s\<lparr>port := Some (p\<lparr>port_written := port_written p @ [textEncode (t @ CRLF)]\<rparr>)\<rparr>)"
    using send [of t] by simp
  have two: "\<not> (addCRLF (sendConfig s) \<and> \<not> endsWith t CRLF) \<longrightarrow>
            sendData env (TextPayload t) h s
              = addLog (send_stamp env) Tx t (Some (textEncode t))
                  (s\<lparr>port := Some (p\<lparr>port_written := port_written p @ [textEncode t]\<rparr>)\<rparr>)"
    using send [of t] by auto
  have three: "\<not> addCRLF (sendConfig s) \<longrightarrow>
            logs (sendData env (TextPayload (ascii ''AT'' @ CRLF)) h s)
              = slice_last 2000 (logs s)
                  @ [newEntry (send_stamp env) Tx (ascii ''AT'' @ CRLF) (Some [0x41, 0x54, 0x0D, 0x0A])]
            \<and> txCount (sendData env (TextPayload (ascii ''AT'' @ CRLF)) h s) = txCount s + 4
            \<and> writtenChunks (sendData env (TextPayload (ascii ''AT'' @ CRLF)) h s)
                = writtenChunks s @ [[0x41, 0x54, 0x0D, 0x0A]]"
    using assms(1)
    by (simp add: send [of "ascii ''AT'' @ CRLF"] encode_AT_CRLF logs_addLog txCount_addLog
          writtenChunks_addLog writtenChunks_write countedLength_def)
  from one two three show ?thesis by blast
qed

text \<open>
  The scenario: the initial state, connected at 115200 bps, then \<open>AT\r\n\<close> sent as text.
\<close>

theorem text_send_terminator_witness:
  "port connectedState = Some samplePort \<and> \<not> addCRLF (sendConfig connectedState)
   \<and> txCount (sendData sampleSendEnv (TextPayload (ascii ''AT'' @ CRLF)) None connectedState) = 4
   \<and> length (filter (\<lambda>e. type_entry e = Tx)
        (logs (sendData sampleSendEnv (TextPayload (ascii ''AT'' @ CRLF)) None connectedState))) = 1
   \<and> writtenChunks (sendData sampleSendEnv (TextPayload (ascii ''AT'' @ CRLF)) None connectedState)
       = [[0x41, 0x54, 0x0D, 0x0A]]"
proof -
  have a: "port connectedState = Some samplePort" by (rule port_connectedState)
  have b: "port_writable samplePort" by (simp add: samplePort_def)
  have c: "\<not> port_locked samplePort" by (simp add: samplePort_def)
  have d: "\<not> hexRequested None connectedState" by (rule not_hex_connectedState)
  have e: "writeOutcome sampleSendEnv = Resolves" by (simp add: sampleSendEnv_def)
  have f: "\<not> addCRLF (sendConfig connectedState)"
    by (simp add: sendConfig_connectedState initialState_def)
  show ?thesis
    using text_send_terminator [OF a b c d e, of "[]"] a f
    by (simp add: logs_connectedState txCount_connectedState writtenChunks_connectedState
          slice_last_single type_newEntry)
qed

lemma encode_empty: "textEncode [] = []"
  by (simp add: textEncode_def)

lemma hex_empty_bytes: "hex (newEntry st ty d (Some [])) = []"
  by (simp add: newEntry_def bufferToHex_def)

text \<open>
  \<^bold>\<open>Claim C9\<close> (empty text send). On an open, unlocked port whose write resolves, an
  empty text sent with the terminator option off is not rejected: one empty chunk, that
  is zero bytes, is written, a transmitted entry with empty text and empty hexadecimal
  view is appended, and the transmitted total is unchanged.
\<close>

theorem empty_text_send_succeeds:
  assumes "port s = Some p" and "port_writable p" and "\<not> port_locked p"
    and "\<not> hexRequested h s" and "\<not> addCRLF (sendConfig s)" and "writeOutcome env = Resolves"
  shows "logs (sendData env (TextPayload []) h s)
           = slice_last 2000 (logs s) @ [newEntry (send_stamp env) Tx [] (Some [])]
       \<and> type_entry (last (logs (sendData env (TextPayload []) h s))) = Tx
       \<and> data (last (logs (sendData env (TextPayload []) h s))) = []
       \<and> hex (last (logs (sendData env (TextPayload []) h s))) = []
       \<and> writtenChunks (sendData env (TextPayload []) h s) = writtenChunks s @ [[]]
       \<and> concat (writtenChunks (sendData env (TextPayload []) h s)) = concat (writtenChunks s)
       \<and> txCount (sendData env (TextPayload []) h s) = txCount s"
proof -
  have "sendData env (TextPayload []) h s
      = addLog (send_stamp env) Tx [] (Some [])
          (s\<lparr>port := Some (p\<lparr>port_written := port_written p @ [[]]\<rparr>)\<rparr>)"
    using assms by (simp add: sendData_text transmit_resolves encode_empty)
  then show ?thesis
    using assms(1)
    by (simp add: logs_addLog txCount_addLog writtenChunks_addLog writtenChunks_write
          countedLength_def type_newEntry data_newEntry hex_empty_bytes)
qed

theorem empty_text_send_succeeds_witness:
  "port connectedState = Some samplePort
   \<and> writtenChunks (sendData sampleSendEnv (TextPayload []) None connectedState) = [[]]
   \<and> txCount (sendData sampleSendEnv (TextPayload []) None connectedState) = 0
   \<and> type_entry (last (logs (sendData sampleSendEnv (TextPayload []) None connectedState))) = Tx"
proof -
  have a: "port connectedState = Some samplePort" by (rule port_connectedState)
  have b: "port_writable samplePort" by (simp add: samplePort_def)
  have c: "\<not> port_locked samplePort" by (simp add: samplePort_def)
  have d: "\<not> hexRequested None connectedState" by (rule not_hex_connectedState)
  have e: "writeOutcome sampleSendEnv = Resolves" by (simp add: sampleSendEnv_def)
  have f: "\<not> addCRLF (sendConfig connectedState)"
    by (simp add: sendConfig_connectedState initialState_def)
  show ?thesis
    using empty_text_send_succeeds [OF a b c d f e] a
    by (simp add: txCount_connectedState writtenChunks_connectedState type_newEntry)
qed

section \<open>Properties of the auto-repeat timer\<close>

subsection \<open>The timer invariant\<close>

lemma owned_no_ref:
  assumes "timersOwned ss" and "autoSendTimerRef ss = None"
  shows "intervals ss = []"
proof (cases "intervals ss")
  case Nil
  then show ?thesis .
next
  case (Cons i rest)
  with assms show ?thesis by (simp add: timersOwned_def)
qed

lemma owned_filter:
  assumes "timersOwned ss" and "autoSendTimerRef ss = Some h"
  shows "filter (\<lambda>i. interval_id i \<noteq> h) (intervals ss) = []"
  using assms by (auto simp: timersOwned_def list_all_iff filter_empty_conv)

lemma owned_cleanup: "timersOwned ss \<Longrightarrow> timersOwned (autoSendCleanup ss)"
  by (auto simp: timersOwned_def autoSendCleanup_def clearInterval_def list_all_iff
      split: option.splits)

lemma state_cleanup: "state (autoSendCleanup ss) = state ss"
  by (simp add: autoSendCleanup_def clearInterval_def split: option.splits)

lemma inputBuffer_cleanup: "inputBuffer (autoSendCleanup ss) = inputBuffer ss"
  by (simp add: autoSendCleanup_def clearInterval_def split: option.splits)

lemma state_effect: "state (autoSendEffect ss) = state ss"
  by (simp add: autoSendEffect_def clearInterval_def Let_def split: option.splits)

lemma inputBuffer_effect: "inputBuffer (autoSendEffect ss) = inputBuffer ss"
  by (simp add: autoSendEffect_def clearInterval_def Let_def split: option.splits)

lemma state_commitEffects: "state (commitEffects ss) = state ss"
  by (simp add: commitEffects_def state_effect state_cleanup split: option.splits)

lemma inputBuffer_commitEffects: "inputBuffer (commitEffects ss) = inputBuffer ss"
  by (simp add: commitEffects_def inputBuffer_effect inputBuffer_cleanup split: option.splits)

lemma currentDeps_commitEffects: "currentDeps (commitEffects ss) = currentDeps ss"
  by (simp add: currentDeps_def state_commitEffects inputBuffer_commitEffects)

lemma armed_commitEffects: "armed (commitEffects ss) = armed ss"
  by (simp add: armed_def state_commitEffects inputBuffer_commitEffects)

lemma armed_cleanup: "armed (autoSendCleanup ss) = armed ss"
  by (simp add: armed_def state_cleanup inputBuffer_cleanup)

lemma owned_effect:
  assumes "timersOwned ss"
  shows "timersOwned (autoSendEffect ss)
       \<and> (armed (autoSendEffect ss) \<or> autoSendTimerRef (autoSendEffect ss) = None)"
proof (cases "armed ss")
  case True
  show ?thesis
  proof (cases "autoSendTimerRef ss")
    case None
    then have "intervals ss = []" by (rule owned_no_ref [OF assms])
    with True None show ?thesis
      by (simp add: autoSendEffect_def armed_def truthyHandle_def Let_def timersOwned_def)
  next
    case (Some h)
    with assms have "h \<noteq> 0" by (auto simp: timersOwned_def)
    with True Some assms show ?thesis
      by (simp add: autoSendEffect_def armed_def truthyHandle_def)
  qed
next
  case False
  show ?thesis
  proof (cases "autoSendTimerRef ss")
    case None
    with False assms show ?thesis
      by (auto simp: autoSendEffect_def armed_def)
  next
    case (Some h)
    with assms have h: "h \<noteq> 0" by (auto simp: timersOwned_def)
    have "filter (\<lambda>i. interval_id i \<noteq> h) (intervals ss) = []"
      by (rule owned_filter [OF assms Some])
    with False Some h show ?thesis
      by (auto simp: autoSendEffect_def armed_def clearInterval_def timersOwned_def)
  qed
qed

lemma commit_establishes:
  assumes own: "timersOwned ss"
    and same: "effectDeps ss = Some (currentDeps ss) \<Longrightarrow> armed ss \<or> autoSendTimerRef ss = None"
  shows "timerInvariant (commitEffects ss)"
proof (cases "effectDeps ss = Some (currentDeps ss)")
  case True
  then have "commitEffects ss = ss" by (simp add: commitEffects_def)
  with True own same show ?thesis by (simp add: timerInvariant_def)
next
  case False
  define mid where "mid = (case effectDeps ss of None \<Rightarrow> ss | Some d \<Rightarrow> autoSendCleanup ss)"
  have mid_own: "timersOwned mid"
    using own by (simp add: mid_def owned_cleanup split: option.splits)
  have mid_state: "state mid = state ss" "inputBuffer mid = inputBuffer ss"
    by (simp_all add: mid_def state_cleanup inputBuffer_cleanup split: option.splits)
  have eq: "commitEffects ss = (autoSendEffect mid)\<lparr>effectDeps := Some (currentDeps ss)\<rparr>"
    using False by (simp add: commitEffects_def mid_def)
  have deps: "currentDeps ((autoSendEffect mid)\<lparr>effectDeps := Some (currentDeps ss)\<rparr>) = currentDeps ss"
    by (simp add: currentDeps_def state_effect inputBuffer_effect mid_state)
  from owned_effect [OF mid_own]
  have "timersOwned (autoSendEffect mid)"
    and "armed (autoSendEffect mid) \<or> autoSendTimerRef (autoSendEffect mid) = None"
    by simp_all
  then show ?thesis
    unfolding eq timerInvariant_def deps
    by (simp add: timersOwned_def armed_def)
qed

lemma owned_handleDisconnect:
  assumes "timersOwned ss"
  shows "timersOwned (handleDisconnect st ss) \<and> autoSendTimerRef (handleDisconnect st ss) = None"
proof (cases "autoSendTimerRef ss")
  case None
  with assms show ?thesis
    by (simp add: handleDisconnect_def Let_def timersOwned_def)
next
  case (Some h)
  with assms have h: "h \<noteq> 0" by (auto simp: timersOwned_def)
  have "filter (\<lambda>i. interval_id i \<noteq> h) (intervals ss) = []"
    by (rule owned_filter [OF assms Some])
  with Some h show ?thesis
    by (simp add: handleDisconnect_def Let_def timersOwned_def clearInterval_def)
qed

lemma isConnected_handleDisconnect: "\<not> isConnected (state (handleDisconnect st ss))"
  by (simp add: handleDisconnect_def Let_def isConnected_addLog split: option.splits)

lemma intervalFires_fields:
  "autoSendTimerRef (intervalFires env h ss) = autoSendTimerRef ss"
  "intervals (intervalFires env h ss) = intervals ss"
  "effectDeps (intervalFires env h ss) = effectDeps ss"
  "inputBuffer (intervalFires env h ss) = inputBuffer ss"
  by (simp_all add: intervalFires_def split: option.splits)

lemma isConnected_sendData: "isConnected (sendData env c h s) = isConnected s"
  by (simp add: sendData_def transmit_def Let_def isConnected_addLog
      split: option.splits payload.splits outcome.splits)

lemma sendConfig_sendData: "sendConfig (sendData env c h s) = sendConfig s"
  by (simp add: sendData_def transmit_def Let_def sendConfig_addLog
      split: option.splits payload.splits outcome.splits)

lemma currentDeps_intervalFires: "currentDeps (intervalFires env h ss) = currentDeps ss"
  by (simp add: currentDeps_def intervalFires_def isConnected_sendData sendConfig_sendData
      split: option.splits)

lemma invariant_step:
  assumes inv: "timerInvariant ss"
  shows "timerInvariant (step ss ev)"
proof -
  from inv have own: "timersOwned ss" and deps: "effectDeps ss = Some (currentDeps ss)"
    and ref: "armed ss \<or> autoSendTimerRef ss = None"
    by (simp_all add: timerInvariant_def)
  show ?thesis
  proof (cases ev)
    case (SetState f)
    have a: "timersOwned (ss\<lparr>state := f (state ss)\<rparr>)"
      using own by (simp add: timersOwned_def)
    have b: "armed (ss\<lparr>state := f (state ss)\<rparr>) \<or> autoSendTimerRef (ss\<lparr>state := f (state ss)\<rparr>) = None"
      if "effectDeps (ss\<lparr>state := f (state ss)\<rparr>) = Some (currentDeps (ss\<lparr>state := f (state ss)\<rparr>))"
    proof -
      from that deps have "currentDeps (ss\<lparr>state := f (state ss)\<rparr>) = currentDeps ss" by simp
      then have "armed (ss\<lparr>state := f (state ss)\<rparr>) = armed ss"
        by (simp add: currentDeps_def armed_def)
      with ref show ?thesis by simp
    qed
    from commit_establishes [OF a b] SetState show ?thesis
      by (simp add: step_def apply_event_def)
  next
    case (SetInputBuffer b)
    have a: "timersOwned (ss\<lparr>inputBuffer := b\<rparr>)"
      using own by (simp add: timersOwned_def)
    have c: "armed (ss\<lparr>inputBuffer := b\<rparr>) \<or> autoSendTimerRef (ss\<lparr>inputBuffer := b\<rparr>) = None"
      if "effectDeps (ss\<lparr>inputBuffer := b\<rparr>) = Some (currentDeps (ss\<lparr>inputBuffer := b\<rparr>))"
    proof -
      from that deps have "currentDeps (ss\<lparr>inputBuffer := b\<rparr>) = currentDeps ss" by simp
      then have "armed (ss\<lparr>inputBuffer := b\<rparr>) = armed ss"
        by (simp add: currentDeps_def armed_def)
      with ref show ?thesis by simp
    qed
    from commit_establishes [OF a c] SetInputBuffer show ?thesis
      by (simp add: step_def apply_event_def)
  next
    case (Disconnect st)
    from owned_handleDisconnect [OF own, of st]
    have a: "timersOwned (handleDisconnect st ss)"
      and b: "autoSendTimerRef (handleDisconnect st ss) = None" by simp_all
    from commit_establishes [OF a] b Disconnect show ?thesis
      by (simp add: step_def apply_event_def)
  next
    case (IntervalFires env h)
    have a: "timersOwned (intervalFires env h ss)"
      using own by (simp add: timersOwned_def intervalFires_fields)
    have b: "armed (intervalFires env h ss) \<or> autoSendTimerRef (intervalFires env h ss) = None"
      using ref
      by (simp add: armed_def intervalFires_def isConnected_sendData sendConfig_sendData
          split: option.splits)
    from commit_establishes [OF a] b IntervalFires show ?thesis
      by (simp add: step_def apply_event_def)
  qed
qed

lemma invariant_initial: "timerInvariant initialSession"
  unfolding initialSession_def
  by (rule commit_establishes) (simp_all add: timersOwned_def)

lemma reachable_invariant: "reachable ss \<Longrightarrow> timerInvariant ss"
  by (induction rule: reachable.induct) (simp_all add: invariant_initial invariant_step)

lemma disarmed_ticks:
  assumes "timerInvariant ss" and "autoSendTimerRef ss = None"
  shows "run (timerTicks ts) ss = ss"
proof (induction ts)
  case Nil
  then show ?case by (simp add: run_def timerTicks_def)
next
  case (Cons t ts)
  obtain env h where t: "t = (env, h)" by (cases t)
  from assms have "intervals ss = []" by (simp add: timerInvariant_def owned_no_ref)
  then have "intervalFires env h ss = ss" by (simp add: intervalFires_def)
  moreover from assms have "commitEffects ss = ss"
    by (simp add: timerInvariant_def commitEffects_def)
  ultimately have "step ss (IntervalFires env h) = ss"
    by (simp add: step_def apply_event_def)
  with Cons t show ?case by (simp add: run_def timerTicks_def)
qed

text \<open>
  \<^bold>\<open>Claim C8\<close> (disarmed timer). In every reachable session, after a disconnect or after
  the auto-repeat option is switched off (each followed by its render), the window has
  no active interval left and the ref is \<open>null\<close>; whatever interval handles fire
  afterwards, no send runs: the session stays as it is.
\<close>

theorem disarmed_timer_stays_silent:
  assumes "reachable ss" and "ev = Disconnect st \<or> ev = SetState autoRepeatOff"
  shows "intervals (step ss ev) = []
       \<and> autoSendTimerRef (step ss ev) = None
       \<and> run (timerTicks ts) (step ss ev) = step ss ev"
proof -
  have inv: "timerInvariant (step ss ev)"
    using assms(1) by (simp add: reachable_invariant invariant_step)
  have "\<not> armed (step ss ev)"
    using assms(2)
    by (auto simp: step_def apply_event_def armed_def state_commitEffects
          isConnected_handleDisconnect autoRepeatOff_def)
  with inv have ref: "autoSendTimerRef (step ss ev) = None" by (simp add: timerInvariant_def)
  with inv have "intervals (step ss ev) = []" by (simp add: timerInvariant_def owned_no_ref)
  with ref disarmed_ticks [OF inv ref] show ?thesis by simp
qed

lemma initialSession_eq:
  "initialSession =
     \<lparr>state = initialState, inputBuffer = [], keepReadingRef = True,
      autoSendTimerRef = None, intervals = [], lastTimerId = 0,
      effectDeps = Some \<lparr>dep_autoRepeat = False, dep_repeatInterval = 1000,
        dep_isConnected = False, dep_inputBuffer = [], dep_isHex = False, dep_addCRLF = False\<rparr>\<rparr>"
  by (simp add: initialSession_def commitEffects_def autoSendEffect_def currentDeps_def
        initialState_def)

lemma armedSession_reachable: "reachable armedSession"
  unfolding armedSession_def run_def foldl.simps
  by (intro reachable_step reachable_initial)

lemma armedSession_timer:
  "autoSendTimerRef armedSession = Some 1
   \<and> intervals armedSession
       = [\<lparr>interval_id = 1, interval_delay = 1000, interval_payload = ascii ''AT''\<rparr>]"
  by (simp add: armedSession_def run_def step_def apply_event_def initialSession_eq
        commitEffects_def autoSendEffect_def autoSendCleanup_def currentDeps_def
        connectUpdate_def autoRepeatOn_def initialState_def truthyHandle_def ascii_def Let_def)

text \<open>
  The armed sample session has one active interval; a disconnect, or the option switched
  off, leaves none, and later ticks of handle 1 change nothing.
\<close>

theorem disarmed_timer_stays_silent_witness:
  "reachable armedSession
   \<and> intervals armedSession
       = [\<lparr>interval_id = 1, interval_delay = 1000, interval_payload = ascii ''AT''\<rparr>]
   \<and> intervals (step armedSession (Disconnect sampleStamp)) = []
   \<and> autoSendTimerRef (step armedSession (Disconnect sampleStamp)) = None
   \<and> run (timerTicks [(sampleSendEnv, 1), (sampleSendEnv, 1)])
         (step armedSession (Disconnect sampleStamp))
       = step armedSession (Disconnect sampleStamp)
   \<and> intervals (step armedSession (SetState autoRepeatOff)) = []
   \<and> run (timerTicks [(sampleSendEnv, 1)]) (step armedSession (SetState autoRepeatOff))
       = step armedSession (SetState autoRepeatOff)"
  using armedSession_reachable armedSession_timer
    disarmed_timer_stays_silent [OF armedSession_reachable, of "Disconnect sampleStamp" sampleStamp
      "[(sampleSendEnv, 1), (sampleSendEnv, 1)]"]
    disarmed_timer_stays_silent [OF armedSession_reachable, of "SetState autoRepeatOff" sampleStamp
      "[(sampleSendEnv, 1)]"]
  by simp

subsection \<open>Connected exactly when a port is held\<close>

lemma portConsistent_initial: "portConsistent initialState"
  by (simp add: portConsistent_def initialState_def)

lemma portConsistent_addLog: "portConsistent (addLog st ty d rb s) = portConsistent s"
  by (simp add: portConsistent_def isConnected_addLog port_addLog)

lemma portConsistent_handleConnect:
  "portConsistent s \<Longrightarrow> portConsistent (handleConnect env s)"
  by (simp add: handleConnect_def portConsistent_def isConnected_addLog port_addLog Let_def
      split: connectOutcome.splits outcome.splits)

lemma portConsistent_handleDisconnect: "portConsistent (state (handleDisconnect st ss))"
  by (simp add: handleDisconnect_def portConsistent_def isConnected_addLog port_addLog Let_def
      split: option.splits)

lemma portConsistent_sendData: "portConsistent s \<Longrightarrow> portConsistent (sendData env c h s)"
  by (simp add: sendData_def transmit_def portConsistent_def isConnected_addLog port_addLog Let_def
      split: option.splits payload.splits outcome.splits)

lemma portConsistent_handleSignalChange:
  "portConsistent s \<Longrightarrow> portConsistent (handleSignalChange env sg v s)"
  by (simp add: handleSignalChange_def portConsistent_def isConnected_addLog port_addLog
      split: option.splits outcome.splits signal.splits)

subsection \<open>Analysis request\<close>

lemma replaceUnit_absent: "c \<notin> set s \<Longrightarrow> replaceUnit c r s = s"
  by (induction s) (auto simp: replaceUnit_def)

lemma length_promptLogData: "length (promptLogData x) \<le> 5000"
  by (simp add: promptLogData_def slice_last_def)

lemma logs_longLogState:
  "logs longLogState
   = [newEntry sampleStamp Info (ascii ''boot'') None,
      newEntry sampleStamp Tx (replicate 5000 0x41) (Some (replicate 5000 0x41))]"
  by (simp add: longLogState_def logs_addLog initialState_def slice_last_def)

lemma isHexMode_addLog: "isHexMode (addLog st ty d rb s) = isHexMode s"
  by (simp add: addLog_def)

lemma aiConfig_addLog: "aiConfig (addLog st ty d rb s) = aiConfig s"
  by (simp add: addLog_def)

lemma combinedLogs_longLogState:
  "combinedLogs longLogState
   = ascii ''INFO: boot'' @ [0x0A] @ ascii ''TX: '' @ replicate 5000 0x41"
proof -
  have a: "replaceUnit 0x0A [0x5C, 0x6E] (replaceUnit 0x0D [0x5C, 0x72] (replicate 5000 0x41))
           = replicate 5000 0x41"
    by (simp add: replaceUnit_absent)
  have m: "isHexMode longLogState = False"
    by (simp add: longLogState_def isHexMode_addLog initialState_def)
  show ?thesis
    unfolding combinedLogs_def logs_longLogState m
    by (simp add: slice_last_def renderForAnalysis_def data_newEntry type_newEntry a
          replaceUnit_absent typeName_def toUpperCase_def upperUnit_def ascii_def)
qed

text \<open>
  \<^bold>\<open>Claim C10\<close> (truncation of the analysis request). With a key configured, a
  non-empty log and a provider that can be reached (Gemini, or any other with a base
  URL), a request is sent and the prompt it carries embeds the last 5000 code units of the
  text that renders the last 100 entries, one \<open>KIND: content\<close> line each; the embedded part
  is never longer than 5000. (For another provider without a base URL \<open>analyzeLogs\<close>
  throws before any request.) So an entry inside the 100-entry window can be dropped: of
  the two entries of the sample state only the last 5000 units of the second reach the
  prompt.
\<close>

theorem analysis_prompt_keeps_last_5000_units:
  "(apiKey (aiConfig s) \<noteq> [] \<and> logs s \<noteq> []
      \<and> (provider (aiConfig s) = Gemini \<or> baseUrl (aiConfig s) \<noteq> []) \<longrightarrow>
      map_option (map_sum id requestPrompt) (fst (handleAiAnalysis s))
        = Some (Inr (promptHead
                @ slice_last 5000
                    (join [0x0A] (map (renderForAnalysis (isHexMode s)) (slice_last 100 (logs s))))
                @ promptTail)))
   \<and> (apiKey (aiConfig s) \<noteq> [] \<and> logs s \<noteq> []
      \<and> provider (aiConfig s) \<noteq> Gemini \<and> baseUrl (aiConfig s) = [] \<longrightarrow>
      fst (handleAiAnalysis s) = Some (Inl MissingBaseUrl))
   \<and> length (promptLogData x) \<le> 5000
   \<and> length (logs longLogState) = 2
   \<and> combinedLogs longLogState = ascii ''INFO: boot'' @ [0x0A] @ ascii ''TX: '' @ replicate 5000 0x41
   \<and> fst (handleAiAnalysis longLogState)
       = Some (Inr (GenerateContent
            \<lparr>gemini_apiKey = ascii ''key'', gemini_model = ascii ''gemini-2.0-flash'',
             gemini_contents = promptHead @ replicate 5000 0x41 @ promptTail\<rparr>))"
proof -
  have k: "aiConfig longLogState
           = \<lparr>provider = Gemini, apiKey = ascii ''key'', baseUrl = [],
              model = ascii ''gemini-2.0-flash''\<rparr>"
    by (simp add: longLogState_def aiConfig_addLog initialState_def)
  have p: "promptLogData (combinedLogs longLogState) = replicate 5000 0x41"
    unfolding combinedLogs_longLogState promptLogData_def
    by (simp add: slice_last_def ascii_def)
  have e: "fst (handleAiAnalysis longLogState)
       = Some (Inr (GenerateContent
            \<lparr>gemini_apiKey = ascii ''key'', gemini_model = ascii ''gemini-2.0-flash'',
             gemini_contents = promptHead @ replicate 5000 0x41 @ promptTail\<rparr>))"
    by (simp add: handleAiAnalysis_def analyzeLogs_def analyzeLogsPrompt_def p k
          logs_longLogState ascii_def Let_def)
  have g: "apiKey (aiConfig s) \<noteq> [] \<and> logs s \<noteq> []
      \<and> (provider (aiConfig s) = Gemini \<or> baseUrl (aiConfig s) \<noteq> []) \<longrightarrow>
      map_option (map_sum id requestPrompt) (fst (handleAiAnalysis s))
        = Some (Inr (promptHead
                @ slice_last 5000
                    (join [0x0A] (map (renderForAnalysis (isHexMode s)) (slice_last 100 (logs s))))
                @ promptTail))"
    by (simp add: handleAiAnalysis_def analyzeLogs_def analyzeLogsPrompt_def promptLogData_def
          combinedLogs_def requestPrompt_def Let_def)
  have u: "apiKey (aiConfig s) \<noteq> [] \<and> logs s \<noteq> []
      \<and> provider (aiConfig s) \<noteq> Gemini \<and> baseUrl (aiConfig s) = [] \<longrightarrow>
      fst (handleAiAnalysis s) = Some (Inl MissingBaseUrl)"
    by (simp add: handleAiAnalysis_def analyzeLogs_def Let_def)
  have n: "length (logs longLogState) = 2" by (simp add: logs_longLogState)
  from g u length_promptLogData [of x] n combinedLogs_longLogState e show ?thesis
    by (intro conjI)
qed

text \<open>
  The sample states: with Gemini and with a custom provider that has a base URL the
  prompt holds the 5000 letters only; without a base URL no request is sent.
\<close>

theorem analysis_prompt_keeps_last_5000_units_witness:
  "apiKey (aiConfig longLogState) \<noteq> [] \<and> logs longLogState \<noteq> []
   \<and> provider (aiConfig longLogState) = Gemini
   \<and> map_option (map_sum id requestPrompt) (fst (handleAiAnalysis longLogState))
       = Some (Inr (promptHead @ replicate 5000 0x41 @ promptTail))
   \<and> map_option (map_sum id requestPrompt) (fst (handleAiAnalysis customLogState))
       = Some (Inr (promptHead @ replicate 5000 0x41 @ promptTail))
   \<and> fst (handleAiAnalysis noUrlLogState) = Some (Inl MissingBaseUrl)"
proof -
  have k: "aiConfig longLogState
           = \<lparr>provider = Gemini, apiKey = ascii ''key'', baseUrl = [],
              model = ascii ''gemini-2.0-flash''\<rparr>"
    by (simp add: longLogState_def aiConfig_addLog initialState_def)
  have l: "logs longLogState \<noteq> []" by (simp add: logs_longLogState)
  have c: "slice_last 5000
             (join [0x0A] (map (renderForAnalysis (isHexMode longLogState))
                (slice_last 100 (logs longLogState))))
           = replicate 5000 0x41"
    unfolding combinedLogs_longLogState [unfolded combinedLogs_def]
    by (simp add: slice_last_def ascii_def)
  have lc: "logs customLogState = logs longLogState"
    "isHexMode customLogState = isHexMode longLogState"
    "aiConfig customLogState
       = \<lparr>provider = Custom, apiKey = ascii ''key'',
          baseUrl = ascii ''http://localhost:8000/v1'', model = ascii ''local''\<rparr>"
    by (simp_all add: customLogState_def)
  have ln: "logs noUrlLogState = logs longLogState"
    "aiConfig noUrlLogState = \<lparr>provider = Custom, apiKey = ascii ''key'', baseUrl = [], model = []\<rparr>"
    by (simp_all add: noUrlLogState_def)
  have p1: "apiKey (aiConfig longLogState) \<noteq> [] \<and> logs longLogState \<noteq> []
      \<and> (provider (aiConfig longLogState) = Gemini \<or> baseUrl (aiConfig longLogState) \<noteq> [])"
    using l by (simp add: k ascii_def)
  have p2: "apiKey (aiConfig customLogState) \<noteq> [] \<and> logs customLogState \<noteq> []
      \<and> (provider (aiConfig customLogState) = Gemini \<or> baseUrl (aiConfig customLogState) \<noteq> [])"
    using l by (simp add: lc ascii_def)
  have p3: "apiKey (aiConfig noUrlLogState) \<noteq> [] \<and> logs noUrlLogState \<noteq> []
      \<and> provider (aiConfig noUrlLogState) \<noteq> Gemini \<and> baseUrl (aiConfig noUrlLogState) = []"
    using l by (simp add: ln ascii_def)
  have a: "map_option (map_sum id requestPrompt) (fst (handleAiAnalysis longLogState))
       = Some (Inr (promptHead @ replicate 5000 0x41 @ promptTail))"
    using mp [OF conjunct1 [OF analysis_prompt_keeps_last_5000_units [of longLogState "[]"]] p1]
    by (simp only: c)
  have b: "map_option (map_sum id requestPrompt) (fst (handleAiAnalysis customLogState))
       = Some (Inr (promptHead @ replicate 5000 0x41 @ promptTail))"
    using mp [OF conjunct1 [OF analysis_prompt_keeps_last_5000_units [of customLogState "[]"]] p2]
    by (simp only: lc c)
  have d: "fst (handleAiAnalysis noUrlLogState) = Some (Inl MissingBaseUrl)"
    by (rule mp [OF conjunct1 [OF conjunct2
          [OF analysis_prompt_keeps_last_5000_units [of noUrlLogState "[]"]]] p3])
  have g: "provider (aiConfig longLogState) = Gemini" by (simp add: k)
  from p1 g a b d show ?thesis by (intro conjI) simp_all
qed

end
